theory Spec2Isabelle
  imports Complex_Main "HOL-Library.Word"
begin

section \<open>pdf\_to\_image: first page of a document to a grayscale PNG\<close>

text \<open>
  The program (\<^verbatim>\<open>src/engine/pdf_to_image.c\<close>) is glue between a rendering engine (MuPDF's
  fitz API) and an image encoder (libpng). Its two functions, \<^verbatim>\<open>write_png_fast\<close> and
  \<^verbatim>\<open>main\<close>, are embedded below as they are written. The library functions they call are
  not part of the repository; each is modelled by its contract, and its definition says
  where the contract is taken from: the spec where the spec describes the step, the
  library's interface where the spec is silent.
  The process state is explicit: a \<open>world\<close> (files, standard streams, number of clock
  readings) that the functions pass along, and an \<open>env\<close> that fixes everything the program
  does not control (which paths cannot be opened, where libpng fails, the content of fresh
  heap memory, the clock, the engine's rasteriser).
\<close>

type_synonym byte = "8 word"

subsection \<open>Geometry (fitz)\<close>

text \<open>
  \<^verbatim>\<open>fz_rect\<close>, \<^verbatim>\<open>fz_irect\<close>, \<^verbatim>\<open>fz_matrix\<close>. The C fields are \<^verbatim>\<open>float\<close>; they are taken
  as reals here. For the only matrix the program builds, a scale by 4, that loses nothing:
  multiplying a binary floating-point number by a power of two is exact (short of overflow),
  and floor and ceiling are exact.
\<close>

record fz_rect =
  rx0 :: real
  ry0 :: real
  rx1 :: real
  ry1 :: real

record fz_irect =
  ix0 :: int
  iy0 :: int
  ix1 :: int
  iy1 :: int

record fz_matrix =
  ma :: real
  mb :: real
  mc :: real
  md :: real
  me :: real
  mf :: real

text \<open>
  Modelled from the spec: \<^verbatim>\<open>fz_scale\<close>, \<^verbatim>\<open>fz_concat\<close>, \<^verbatim>\<open>fz_transform_point\<close> and
  \<^verbatim>\<open>fz_transform_rect\<close> are the engine's. The spec's transform is a 2D affine scale
  (section 3) that is applied to the bounding rectangle (4.1, step 4); the matrices are
  the usual six-number affine maps, a point being a row vector.
\<close>

definition fz_scale :: "real \<Rightarrow> real \<Rightarrow> fz_matrix" where
  "fz_scale sx sy = \<lparr>ma = sx, mb = 0, mc = 0, md = sy, me = 0, mf = 0\<rparr>"

text \<open>\<^verbatim>\<open>fz_concat(one, two)\<close>: first \<open>one\<close>, then \<open>two\<close> (the product of the two matrices).\<close>

definition fz_concat :: "fz_matrix \<Rightarrow> fz_matrix \<Rightarrow> fz_matrix" where
  "fz_concat one two =
     \<lparr>ma = ma one * ma two + mb one * mc two,
      mb = ma one * mb two + mb one * md two,
      mc = mc one * ma two + md one * mc two,
      md = mc one * mb two + md one * md two,
      me = me one * ma two + mf one * mc two + me two,
      mf = me one * mb two + mf one * md two + mf two\<rparr>"

definition fz_transform_point :: "real \<times> real \<Rightarrow> fz_matrix \<Rightarrow> real \<times> real" where
  "fz_transform_point p m =
     (fst p * ma m + snd p * mc m + me m, fst p * mb m + snd p * md m + mf m)"

text \<open>
  \<^verbatim>\<open>fz_transform_rect\<close>: the axis-aligned rectangle that covers the four transformed
  corners.
\<close>

definition fz_transform_rect :: "fz_rect \<Rightarrow> fz_matrix \<Rightarrow> fz_rect" where
  "fz_transform_rect r m =
     (let s = fz_transform_point (rx0 r, ry0 r) m;
          t = fz_transform_point (rx0 r, ry1 r) m;
          u = fz_transform_point (rx1 r, ry1 r) m;
          v = fz_transform_point (rx1 r, ry0 r) m
      in \<lparr>rx0 = min (min (fst s) (fst t)) (min (fst u) (fst v)),
          ry0 = min (min (snd s) (snd t)) (min (snd u) (snd v)),
          rx1 = max (max (fst s) (fst t)) (max (fst u) (fst v)),
          ry1 = max (max (snd s) (snd t)) (max (snd u) (snd v))\<rparr>)"

text \<open>
  Modelled from the spec: \<^verbatim>\<open>fz_round_rect\<close> is a function of the rendering engine and is
  not part of this repository's source. The spec (4.1, step 4) has the scaled rectangle
  "round outward to integer pixel bounds": the upper-left corner goes down to the next
  integer, the lower-right corner up.
\<close>

definition fz_round_rect :: "fz_rect \<Rightarrow> fz_irect" where
  "fz_round_rect r = \<lparr>ix0 = \<lfloor>rx0 r\<rfloor>, iy0 = \<lfloor>ry0 r\<rfloor>, ix1 = \<lceil>rx1 r\<rceil>, iy1 = \<lceil>ry1 r\<rceil>\<rparr>"

subsection \<open>Documents, pages, pixmaps\<close>

text \<open>
  A page has its bounding box and its content. The content is a list of marks, each a point
  in page units with a gray value; what the engine makes of it is the rasteriser's business
  (\<open>raster\<close> in \<open>env\<close> below).
\<close>

record fz_page =
  page_bounds :: fz_rect
  page_marks :: "(real \<times> real \<times> byte) list"

record fz_document =
  doc_pages :: "fz_page list"

text \<open>
  \<^verbatim>\<open>fz_pixmap\<close>: origin, width, height, components per pixel, bytes per row and the
  samples. The program reads \<^verbatim>\<open>w\<close>, \<^verbatim>\<open>h\<close>, \<^verbatim>\<open>stride\<close> and \<^verbatim>\<open>samples\<close>.
  Addresses inside the buffer are offsets from \<^verbatim>\<open>samples\<close>.
\<close>

record fz_pixmap =
  pix_x :: int
  pix_y :: int
  pix_w :: int
  pix_h :: int
  pix_n :: int
  pix_stride :: int
  pix_samples :: "byte list"

record fz_device =
  dev_transform :: fz_matrix
  dev_dest :: fz_pixmap

datatype fz_error = DocumentOpenError | PageLoadError

subsection \<open>PNG files (libpng)\<close>

datatype png_color_type =
  PNG_COLOR_TYPE_GRAY | PNG_COLOR_TYPE_PALETTE | PNG_COLOR_TYPE_RGB
  | PNG_COLOR_TYPE_RGB_ALPHA | PNG_COLOR_TYPE_GRAY_ALPHA

datatype png_interlace = PNG_INTERLACE_NONE | PNG_INTERLACE_ADAM7

record png_ihdr =
  ihdr_width :: nat
  ihdr_height :: nat
  ihdr_bit_depth :: nat
  ihdr_color_type :: png_color_type
  ihdr_interlace :: png_interlace

text \<open>
  What libpng has put into the file so far: the header, then one item per scanline (with
  the compression level it was deflated at), then the trailer. The bytes on disk are a
  function of this sequence.
\<close>

datatype png_item = PngHeader png_ihdr | PngRow int "byte list" | PngEnd

datatype file_content = DocFile fz_document | PngFile "png_item list" | OtherFile "byte list"

record png_struct =
  zlib_level :: int
  png_info :: "png_ihdr option"
  png_out :: "png_item list"

text \<open>The calls of libpng that can raise \<^verbatim>\<open>png_error\<close> after \<^verbatim>\<open>setjmp\<close> is armed.\<close>

datatype png_step = AtSetIHDR | AtWriteInfo | AtWriteRow nat | AtWriteEnd

datatype png_abort = PngError | BadRead

text \<open>
  zlib's compression levels, which \<^verbatim>\<open>png_set_compression_level\<close> passes on to zlib
  (\<^verbatim>\<open>zlib.h\<close>, reached through \<^verbatim>\<open>png.h\<close>): 0 stores without compressing, 1 is the fastest
  level that compresses, 9 compresses best; -1 asks for the default.
\<close>

definition Z_NO_COMPRESSION :: int where "Z_NO_COMPRESSION = 0"
definition Z_BEST_SPEED :: int where "Z_BEST_SPEED = 1"
definition Z_BEST_COMPRESSION :: int where "Z_BEST_COMPRESSION = 9"
definition Z_DEFAULT_COMPRESSION :: int where "Z_DEFAULT_COMPRESSION = - 1"

definition zlib_level_available :: "int \<Rightarrow> bool" where
  "zlib_level_available l \<longleftrightarrow> Z_NO_COMPRESSION \<le> l \<and> l \<le> Z_BEST_COMPRESSION"

subsection \<open>Process state and environment\<close>

record timespec =
  tv_sec :: int
  tv_nsec :: int

text \<open>A line of standard output: the file name and the two clock readings it reports.\<close>

datatype out_line = Yielded string timespec timespec

record world =
  files :: "string \<rightharpoonup> file_content"
  stdout :: "out_line list"
  stderr :: "string list"
  clock_reads :: nat

record env =
  fopen_errno :: "string \<Rightarrow> string option"
  png_fault :: "png_step \<Rightarrow> bool"
  heap_junk :: "nat \<Rightarrow> byte"
  clock :: "nat \<Rightarrow> timespec"
  raster :: "fz_page \<Rightarrow> fz_matrix \<Rightarrow> fz_pixmap \<Rightarrow> (nat \<times> byte) list"

datatype outcome = Exit int | Abort fz_error | Undefined

subsection \<open>The rendering engine's calls (fitz)\<close>

text \<open>
  Modelled from the spec: \<^verbatim>\<open>fz_open_document\<close> is the engine's. The spec (4.1, step 1) has
  it fail with \<open>DocumentOpenError\<close> when the file is missing, unreadable or not a
  parseable document.
\<close>

definition fz_open_document :: "world \<Rightarrow> string \<Rightarrow> fz_error + fz_document" where
  "fz_open_document W path =
     (case files W path of Some (DocFile doc) \<Rightarrow> Inr doc | _ \<Rightarrow> Inl DocumentOpenError)"

text \<open>
  Modelled from the spec: \<^verbatim>\<open>fz_load_page\<close> fails with \<open>PageLoadError\<close> when the index is
  out of range (4.1, step 2).
\<close>

definition fz_load_page :: "fz_document \<Rightarrow> nat \<Rightarrow> fz_error + fz_page" where
  "fz_load_page doc number =
     (if number < length (doc_pages doc) then Inr (doc_pages doc ! number)
      else Inl PageLoadError)"

definition fz_bound_page :: "fz_page \<Rightarrow> fz_rect" where
  "fz_bound_page page = page_bounds page"

text \<open>
  Modelled from the spec: \<^verbatim>\<open>fz_new_pixmap_with_bbox\<close> is the engine's; it allocates a
  pixel buffer sized to the rounded bounds (4.1, step 5). Its arguments are
  \<^verbatim>\<open>(ctx, colorspace, bbox, seps, alpha)\<close>: the pixmap has the colour space's components
  and one more for alpha when \<open>alpha\<close> is set (the program passes 1), rows packed one
  after the other. The samples are fresh heap memory: whatever was there (\<open>heap_junk\<close>).
\<close>

definition fz_device_gray :: nat where
  "fz_device_gray = 1"

definition fz_new_pixmap_with_bbox :: "env \<Rightarrow> nat \<Rightarrow> fz_irect \<Rightarrow> int \<Rightarrow> fz_pixmap" where
  "fz_new_pixmap_with_bbox E colorspace bbox alpha =
     (let wd = ix1 bbox - ix0 bbox;
          ht = iy1 bbox - iy0 bbox;
          k = int colorspace + (if alpha \<noteq> 0 then 1 else 0)
      in \<lparr>pix_x = ix0 bbox, pix_y = iy0 bbox, pix_w = wd, pix_h = ht, pix_n = k,
          pix_stride = wd * k,
          pix_samples = map (heap_junk E) [0..<nat (wd * k * ht)]\<rparr>)"

text \<open>
  Modelled from the spec: \<^verbatim>\<open>fz_clear_pixmap_with_value\<close> fills every sample of the buffer,
  all stride times height bytes, with the value (4.1, step 5).
\<close>

definition fz_clear_pixmap_with_value :: "fz_pixmap \<Rightarrow> byte \<Rightarrow> fz_pixmap" where
  "fz_clear_pixmap_with_value pix v =
     pix\<lparr>pix_samples := replicate (nat (pix_stride pix * pix_h pix)) v\<rparr>"

definition fz_new_draw_device :: "fz_matrix \<Rightarrow> fz_pixmap \<Rightarrow> fz_device" where
  "fz_new_draw_device transform dest = \<lparr>dev_transform = transform, dev_dest = dest\<rparr>"

text \<open>
  Modelled from the spec: the drawing surface is bound to the pixel buffer and a
  transform (4.1, step 6). Drawing is a sequence of writes, each a sample's offset and its
  new value, applied to the buffer in order. The engine clips: a write outside the buffer
  changes nothing.
\<close>

definition draw :: "(nat \<times> byte) list \<Rightarrow> byte list \<Rightarrow> byte list" where
  "draw writes buf = foldl (\<lambda>b wr. b[fst wr := snd wr]) buf writes"

text \<open>
  Modelled from the spec: \<^verbatim>\<open>fz_run_page(ctx, page, dev, transform, cookie)\<close> renders the
  page's content onto the drawing surface (4.1, step 6). The spec speaks of one transform;
  the call takes a matrix and the device already has one. How the two combine is the
  engine's interface: the draw device concatenates the matrix of every drawing call it
  receives with its own (\<^verbatim>\<open>fz_concat(in_ctm, dev->transform)\<close>), which is why the engine's
  own page-to-pixmap helper makes the device with the zoom matrix and runs the page with
  the identity. The rasteriser works under the concatenated matrix.
\<close>

definition fz_run_page :: "env \<Rightarrow> fz_page \<Rightarrow> fz_device \<Rightarrow> fz_matrix \<Rightarrow> fz_device" where
  "fz_run_page E page dev transform =
     (let ctm = fz_concat transform (dev_transform dev);
          dest = dev_dest dev
      in dev\<lparr>dev_dest := dest\<lparr>pix_samples :=
                 draw (raster E page ctm dest) (pix_samples dest)\<rparr>\<rparr>)"

text \<open>
  \<^verbatim>\<open>fz_close_device\<close> flushes the device; the pixmap the program holds is the one the
  device drew into.
\<close>

definition fz_close_device :: "fz_device \<Rightarrow> fz_pixmap" where
  "fz_close_device dev = dev_dest dev"

subsection \<open>The encoder's calls (libpng)\<close>

text \<open>
  Modelled from the spec: the encoder's calls are libpng's. The spec (4.2) has them write
  a header that declares width, height, bits per sample, colour mode and interlacing
  (step 2), take a compression level (step 3), emit each row, found through its pointer,
  as one scanline, rows in increasing order (step 4), and write the trailer (step 5); a
  failure inside the library at any of these aborts the run (step 6). Where the library
  fails is given by \<open>png_fault\<close>. A fresh write struct has zlib's default level and no
  header yet.
\<close>

definition png_create_write_struct :: png_struct where
  "png_create_write_struct =
     \<lparr>zlib_level = Z_DEFAULT_COMPRESSION, png_info = None, png_out = []\<rparr>"

definition png_set_compression_level :: "png_struct \<Rightarrow> int \<Rightarrow> png_struct" where
  "png_set_compression_level png level = png\<lparr>zlib_level := level\<rparr>"

text \<open>
  The width and height arguments are \<^verbatim>\<open>png_uint_32\<close>: the program's \<^verbatim>\<open>int\<close> values are
  converted modulo \<open>2^32\<close>.
\<close>

definition png_set_IHDR ::
  "env \<Rightarrow> png_struct \<Rightarrow> int \<Rightarrow> int \<Rightarrow> nat \<Rightarrow> png_color_type \<Rightarrow> png_interlace
     \<Rightarrow> (png_abort \<times> png_struct) + png_struct" where
  "png_set_IHDR E png wd ht depth color interlace =
     (if png_fault E AtSetIHDR then Inl (PngError, png)
      else Inr (png\<lparr>png_info := Some
             \<lparr>ihdr_width = nat (wd mod 2 ^ 32), ihdr_height = nat (ht mod 2 ^ 32),
              ihdr_bit_depth = depth, ihdr_color_type = color,
              ihdr_interlace = interlace\<rparr>\<rparr>))"

definition png_write_info :: "env \<Rightarrow> png_struct \<Rightarrow> (png_abort \<times> png_struct) + png_struct" where
  "png_write_info E png =
     (if png_fault E AtWriteInfo then Inl (PngError, png)
      else case png_info png of
             None \<Rightarrow> Inl (PngError, png)
           | Some ih \<Rightarrow> Inr (png\<lparr>png_out := png_out png @ [PngHeader ih]\<rparr>))"

fun png_channels :: "png_color_type \<Rightarrow> nat" where
  "png_channels PNG_COLOR_TYPE_GRAY = 1"
| "png_channels PNG_COLOR_TYPE_PALETTE = 1"
| "png_channels PNG_COLOR_TYPE_RGB = 3"
| "png_channels PNG_COLOR_TYPE_RGB_ALPHA = 4"
| "png_channels PNG_COLOR_TYPE_GRAY_ALPHA = 2"

definition png_rowbytes :: "png_ihdr \<Rightarrow> nat" where
  "png_rowbytes ih =
     (ihdr_width ih * (png_channels (ihdr_color_type ih) * ihdr_bit_depth ih) + 7) div 8"

text \<open>
  A read of \<open>len\<close> bytes at offset \<open>off\<close> of the sample buffer. Outside the buffer the
  C program's behaviour is undefined: \<open>None\<close>.
\<close>

definition read_bytes :: "byte list \<Rightarrow> nat \<Rightarrow> nat \<Rightarrow> byte list option" where
  "read_bytes mem off len =
     (if off + len \<le> length mem then Some (take len (drop off mem)) else None)"

text \<open>
  \<^verbatim>\<open>png_write_row\<close> takes one row's bytes from the row pointer and appends them to the
  image's row stream, deflated at the level set at that moment. An unset row pointer
  (\<open>None\<close>) or a row that leaves the buffer is a bad read.
\<close>

definition png_write_row ::
  "env \<Rightarrow> byte list \<Rightarrow> nat \<Rightarrow> nat option \<Rightarrow> png_struct
     \<Rightarrow> (png_abort \<times> png_struct) + png_struct" where
  "png_write_row E mem i row png =
     (case png_info png of
        None \<Rightarrow> Inl (PngError, png)
      | Some ih \<Rightarrow>
          (case row of
             None \<Rightarrow> Inl (BadRead, png)
           | Some off \<Rightarrow>
               (case read_bytes mem off (png_rowbytes ih) of
                  None \<Rightarrow> Inl (BadRead, png)
                | Some bs \<Rightarrow>
                    if png_fault E (AtWriteRow i) then Inl (PngError, png)
                    else Inr (png\<lparr>png_out := png_out png @ [PngRow (zlib_level png) bs]\<rparr>))))"

text \<open>
  \<^verbatim>\<open>png_write_image(png, rows)\<close> for an image that is not interlaced: one pass,
  \<^verbatim>\<open>png_write_row(png, rows[i])\<close> for \<open>i\<close> from 0 up to the header's height.
\<close>

function png_write_rows ::
  "env \<Rightarrow> byte list \<Rightarrow> nat option list \<Rightarrow> nat \<Rightarrow> nat \<Rightarrow> png_struct
     \<Rightarrow> (png_abort \<times> png_struct) + png_struct" where
  "png_write_rows E mem rows i ht png =
     (if i < ht then
        (if i < length rows then
           (case png_write_row E mem i (rows ! i) png of
              Inl a \<Rightarrow> Inl a
            | Inr png' \<Rightarrow> png_write_rows E mem rows (i + 1) ht png')
         else Inl (BadRead, png))
      else Inr png)"
  by pat_completeness auto
termination
  by (relation "measure (\<lambda>(E, mem, rows, i, ht, png). ht - i)") auto

declare png_write_rows.simps [simp del]

definition png_write_image ::
  "env \<Rightarrow> byte list \<Rightarrow> png_struct \<Rightarrow> nat option list
     \<Rightarrow> (png_abort \<times> png_struct) + png_struct" where
  "png_write_image E mem png rows =
     (case png_info png of
        None \<Rightarrow> Inl (PngError, png)
      | Some ih \<Rightarrow> png_write_rows E mem rows 0 (ihdr_height ih) png)"

definition png_write_end :: "env \<Rightarrow> png_struct \<Rightarrow> (png_abort \<times> png_struct) + png_struct" where
  "png_write_end E png =
     (if png_fault E AtWriteEnd then Inl (PngError, png)
      else Inr (png\<lparr>png_out := png_out png @ [PngEnd]\<rparr>))"

subsection \<open>\<^verbatim>\<open>write_png_fast\<close> (lines 9 to 37)\<close>

text \<open>
  The address \<^verbatim>\<open>pix->samples + (size_t)y * pix->stride\<close>, as an offset from
  \<^verbatim>\<open>pix->samples\<close>: the product is taken in \<^verbatim>\<open>size_t\<close>, 64 bits without sign.
\<close>

definition row_offset :: "fz_pixmap \<Rightarrow> int \<Rightarrow> nat" where
  "row_offset pix y = unat ((word_of_int y :: 64 word) * word_of_int (pix_stride pix))"

text \<open>
  The loop of lines 29 and 30 over the table that \<^verbatim>\<open>malloc\<close> returned: entry \<open>y\<close> is set
  for \<open>y\<close> from 0 while \<open>y < pix->h\<close>.
\<close>

function fill_rows :: "fz_pixmap \<Rightarrow> int \<Rightarrow> nat option list \<Rightarrow> nat option list" where
  "fill_rows pix y rows =
     (if y < pix_h pix then fill_rows pix (y + 1) (rows[nat y := Some (row_offset pix y)])
      else rows)"
  by pat_completeness auto
termination
  by (relation "measure (\<lambda>(pix, y, rows). nat (pix_h pix - y))") auto

declare fill_rows.simps [simp del]

text \<open>
  Lines 19 to 33, between \<^verbatim>\<open>setjmp\<close> and the clean-up: the calls that write the image, in
  the order of the source. A \<^verbatim>\<open>png_error\<close> in any of them jumps back to line 17.
  \<^verbatim>\<open>malloc\<close> is taken to succeed; its table starts with every entry unset.
\<close>

definition png_encode :: "env \<Rightarrow> fz_pixmap \<Rightarrow> png_struct \<Rightarrow> (png_abort \<times> png_struct) + png_struct" where
  "png_encode E pix png0 =
     (let png = png_set_compression_level png0 1 in
      case png_set_IHDR E png (pix_w pix) (pix_h pix) 8
             PNG_COLOR_TYPE_GRAY PNG_INTERLACE_NONE of
        Inl a \<Rightarrow> Inl a
      | Inr png \<Rightarrow>
      (case png_write_info E png of
        Inl a \<Rightarrow> Inl a
      | Inr png \<Rightarrow>
      (let rows = fill_rows pix 0 (replicate (nat (pix_h pix)) None) in
       case png_write_image E (pix_samples pix) png rows of
        Inl a \<Rightarrow> Inl a
      | Inr png \<Rightarrow> png_write_end E png)))"

text \<open>
  \<^verbatim>\<open>fopen(fname, "wb")\<close> creates the file or empties the one that is there; what libpng
  has written by the time the file is closed is its content. \<^verbatim>\<open>exit(2)\<close> when the file
  cannot be opened, after \<^verbatim>\<open>perror\<close> has printed its line (the prefix, a colon, the
  system's description of the error and a newline); \<^verbatim>\<open>exit(3)\<close> from the \<^verbatim>\<open>setjmp\<close>
  branch.
\<close>

definition write_png_fast :: "env \<Rightarrow> fz_pixmap \<Rightarrow> string \<Rightarrow> world \<Rightarrow> (outcome + unit) \<times> world" where
  "write_png_fast E pix fname W =
     (case fopen_errno E fname of
        Some msg \<Rightarrow> (Inl (Exit 2), W\<lparr>stderr := stderr W @ [''fopen: '' @ msg @ [CHR 0x0A]]\<rparr>)
      | None \<Rightarrow>
          (case png_encode E pix png_create_write_struct of
             Inl (PngError, png) \<Rightarrow>
               (Inl (Exit 3), W\<lparr>files := (files W)(fname \<mapsto> PngFile (png_out png))\<rparr>)
           | Inl (BadRead, png) \<Rightarrow>
               (Inl Undefined, W\<lparr>files := (files W)(fname \<mapsto> PngFile (png_out png))\<rparr>)
           | Inr png \<Rightarrow>
               (Inr (), W\<lparr>files := (files W)(fname \<mapsto> PngFile (png_out png))\<rparr>)))"

subsection \<open>\<^verbatim>\<open>main\<close> (lines 40 to 73)\<close>

text \<open>
  \<^verbatim>\<open>snprintf(buf, size, ...)\<close> keeps at most \<open>size - 1\<close> bytes of the formatted text.
\<close>

definition snprintf :: "nat \<Rightarrow> string \<Rightarrow> string" where
  "snprintf sz s = take (sz - 1) s"

definition clock_gettime :: "env \<Rightarrow> world \<Rightarrow> timespec \<times> world" where
  "clock_gettime E W = (clock E (clock_reads W), W\<lparr>clock_reads := clock_reads W + 1\<rparr>)"

text \<open>
  The usage line names \<^verbatim>\<open>argv[0]\<close>; with an empty argument vector that is a null
  pointer, which the C library prints as \<^verbatim>\<open>(null)\<close>.
\<close>

definition usage :: "string list \<Rightarrow> string" where
  "usage argv =
     ''usage: '' @ (case argv of [] \<Rightarrow> ''(null)'' | a # _ \<Rightarrow> a) @ '' in.pdf out_prefix'' @ [CHR 0x0A]"

text \<open>
  \<open>argc\<close> is the length of \<open>argv\<close>. An error the engine raises is not caught by the
  program: the process ends there (\<open>Abort\<close>). Creating the context (lines 46, 47) and
  dropping the handles (lines 70 to 72) leave no trace in the files or the streams and
  are left out; the line printed at line 66 is kept as the name and the two clock
  readings it is computed from.
\<close>

definition main :: "env \<Rightarrow> string list \<Rightarrow> world \<Rightarrow> outcome \<times> world" where
  "main E argv W0 =
     (if length argv \<noteq> 3 then (Exit 1, W0\<lparr>stderr := stderr W0 @ [usage argv]\<rparr>)
      else
        let (t0, W) = clock_gettime E W0 in
        case fz_open_document W (argv ! 1) of
          Inl e \<Rightarrow> (Abort e, W)
        | Inr doc \<Rightarrow>
        (case fz_load_page doc 0 of
          Inl e \<Rightarrow> (Abort e, W)
        | Inr page \<Rightarrow>
        (let mtx = fz_scale 4 4;
             bboxf = fz_transform_rect (fz_bound_page page) mtx;
             bbox = fz_round_rect bboxf;
             pix = fz_new_pixmap_with_bbox E fz_device_gray bbox 1;
             pix = fz_clear_pixmap_with_value pix 0xFF;
             dev = fz_new_draw_device mtx pix;
             dev = fz_run_page E page dev mtx;
             pix = fz_close_device dev;
             out_name = snprintf 256 (argv ! 2 @ ''.png'')
         in case write_png_fast E pix out_name W of
              (Inl stop, W') \<Rightarrow> (stop, W')
            | (Inr u, W') \<Rightarrow>
                (let (t1, W'') = clock_gettime E W'
                 in (Exit 0, W''\<lparr>stdout := stdout W'' @ [Yielded out_name t0 t1]\<rparr>)))))"

subsection \<open>Derived notions\<close>

text \<open>
  A pixel buffer as the data model of the spec has it: width and height are non-negative
  C \<^verbatim>\<open>int\<close>s, a row is at least as long as the width, and the samples are exactly
  stride times height bytes, an amount that fits the address space.
\<close>

definition pixmap_ok :: "fz_pixmap \<Rightarrow> bool" where
  "pixmap_ok pix \<longleftrightarrow>
     0 \<le> pix_w pix \<and> pix_w pix < 2 ^ 31 \<and> 0 \<le> pix_h pix \<and> pix_h pix < 2 ^ 31 \<and>
     pix_w pix \<le> pix_stride pix \<and> pix_stride pix * pix_h pix < 2 ^ 64 \<and>
     length (pix_samples pix) = nat (pix_stride pix * pix_h pix)"

definition gray8_header :: "fz_pixmap \<Rightarrow> png_ihdr" where
  "gray8_header pix =
     \<lparr>ihdr_width = nat (pix_w pix), ihdr_height = nat (pix_h pix), ihdr_bit_depth = 8,
      ihdr_color_type = PNG_COLOR_TYPE_GRAY, ihdr_interlace = PNG_INTERLACE_NONE\<rparr>"

text \<open>Row \<open>y\<close> of a buffer: the \<open>w\<close> bytes at offset \<open>y * stride\<close>.\<close>

definition scanline :: "fz_pixmap \<Rightarrow> nat \<Rightarrow> byte list" where
  "scanline pix y = take (nat (pix_w pix)) (drop (y * nat (pix_stride pix)) (pix_samples pix))"

definition png_image :: "fz_pixmap \<Rightarrow> png_item list" where
  "png_image pix =
     PngHeader (gray8_header pix)
       # map (\<lambda>y. PngRow 1 (scanline pix y)) [0..<nat (pix_h pix)] @ [PngEnd]"

text \<open>libpng fails somewhere while an image of \<open>ht\<close> rows is written.\<close>

definition png_fails :: "env \<Rightarrow> nat \<Rightarrow> bool" where
  "png_fails E ht \<longleftrightarrow>
     png_fault E AtSetIHDR \<or> png_fault E AtWriteInfo \<or>
     (\<exists>k \<in> {0..<ht}. png_fault E (AtWriteRow k)) \<or> png_fault E AtWriteEnd"

text \<open>The header a PNG file starts with.\<close>

definition file_header :: "file_content option \<Rightarrow> png_ihdr option" where
  "file_header f = (case f of Some (PngFile (PngHeader ih # items)) \<Rightarrow> Some ih | _ \<Rightarrow> None)"

text \<open>The compression levels the scanlines of a file were written at.\<close>

fun row_levels :: "png_item list \<Rightarrow> int list" where
  "row_levels [] = []"
| "row_levels (PngRow l bs # items) = l # row_levels items"
| "row_levels (item # items) = row_levels items"

definition file_row_levels :: "file_content option \<Rightarrow> int list" where
  "file_row_levels f = (case f of Some (PngFile items) \<Rightarrow> row_levels items | _ \<Rightarrow> [])"

text \<open>
  The state libpng is left in by a call, whether it returned or jumped out, and the
  invariant that it works at level \<open>l\<close> and has written every scanline at that level.
\<close>

definition png_state_of :: "(png_abort \<times> png_struct) + png_struct \<Rightarrow> png_struct" where
  "png_state_of r = (case r of Inl (a, p) \<Rightarrow> p | Inr p \<Rightarrow> p)"

definition levels_ok :: "int \<Rightarrow> png_struct \<Rightarrow> bool" where
  "levels_ok l png \<longleftrightarrow> zlib_level png = l \<and> set (row_levels (png_out png)) \<subseteq> {l}"

text \<open>The engine can open the document at a path.\<close>

definition openable :: "world \<Rightarrow> string \<Rightarrow> bool" where
  "openable W path = (case files W path of Some (DocFile doc) \<Rightarrow> True | _ \<Rightarrow> False)"

text \<open>
  The values \<^verbatim>\<open>main\<close> computes on its way, by line: \<open>page_bbox\<close> is \<^verbatim>\<open>bbox\<close> of line 53,
  \<open>blank_pixmap\<close> is \<^verbatim>\<open>pix\<close> after line 56, \<open>rendered_pixmap\<close> is \<^verbatim>\<open>pix\<close> after line 60,
  \<open>out_name\<close> is the buffer of line 62.
\<close>

definition page_bbox :: "fz_page \<Rightarrow> fz_irect" where
  "page_bbox page = fz_round_rect (fz_transform_rect (fz_bound_page page) (fz_scale 4 4))"

definition blank_pixmap :: "env \<Rightarrow> fz_page \<Rightarrow> fz_pixmap" where
  "blank_pixmap E page =
     fz_clear_pixmap_with_value
       (fz_new_pixmap_with_bbox E fz_device_gray (page_bbox page) 1) 0xFF"

definition rendered_pixmap :: "env \<Rightarrow> fz_page \<Rightarrow> fz_pixmap" where
  "rendered_pixmap E page =
     fz_close_device
       (fz_run_page E page (fz_new_draw_device (fz_scale 4 4) (blank_pixmap E page))
          (fz_scale 4 4))"

definition out_name :: "string list \<Rightarrow> string" where
  "out_name argv = snprintf 256 (argv ! 2 @ ''.png'')"

text \<open>
  A page the engine can rasterise at this zoom: its box is not inverted and its scaled
  corners stay within the pixel coordinates the engine works with (\<open>2^24\<close> either way).
\<close>

definition valid_page :: "fz_page \<Rightarrow> bool" where
  "valid_page page \<longleftrightarrow>
     rx0 (page_bounds page) \<le> rx1 (page_bounds page) \<and>
     ry0 (page_bounds page) \<le> ry1 (page_bounds page) \<and>
     - (2 ^ 22) \<le> rx0 (page_bounds page) \<and> rx1 (page_bounds page) \<le> 2 ^ 22 \<and>
     - (2 ^ 22) \<le> ry0 (page_bounds page) \<and> ry1 (page_bounds page) \<le> 2 ^ 22"

subsection \<open>Concrete inputs\<close>

text \<open>
  A rasteriser to run the program with: every mark of the page becomes one pixel, at the
  device position the matrix sends it to, if that position is inside the pixmap.
\<close>

definition plot_marks :: "fz_page \<Rightarrow> fz_matrix \<Rightarrow> fz_pixmap \<Rightarrow> (nat \<times> byte) list" where
  "plot_marks page ctm pix =
     concat (map (\<lambda>(x, y, v).
        (let p = fz_transform_point (x, y) ctm;
             c = \<lfloor>fst p\<rfloor> - pix_x pix;
             r = \<lfloor>snd p\<rfloor> - pix_y pix
         in if 0 \<le> c \<and> c < pix_w pix \<and> 0 \<le> r \<and> r < pix_h pix
            then [(nat (r * pix_stride pix + c * pix_n pix), v)] else []))
       (page_marks page))"

definition demo_env :: env where
  "demo_env =
     \<lparr>fopen_errno = (\<lambda>f. None), png_fault = (\<lambda>s. False), heap_junk = (\<lambda>k. 7),
      clock = (\<lambda>k. \<lparr>tv_sec = int k, tv_nsec = 0\<rparr>), raster = plot_marks\<rparr>"

text \<open>The same, in a directory that cannot be written to, and with a libpng that fails at the trailer.\<close>

definition readonly_env :: env where
  "readonly_env = demo_env\<lparr>fopen_errno := (\<lambda>f. Some ''Permission denied'')\<rparr>"

definition faulty_env :: env where
  "faulty_env = demo_env\<lparr>png_fault := (\<lambda>s. s = AtWriteEnd)\<rparr>"

text \<open>A page of half a unit each way (2 by 2 pixels at zoom 4) with one black mark.\<close>

definition demo_page :: fz_page where
  "demo_page =
     \<lparr>page_bounds = \<lparr>rx0 = 0, ry0 = 0, rx1 = 1 / 2, ry1 = 1 / 2\<rparr>,
      page_marks = [(1 / 8, 1 / 8, 0)]\<rparr>"

definition demo_world :: world where
  "demo_world =
     \<lparr>files = [''in.pdf'' \<mapsto> DocFile \<lparr>doc_pages = [demo_page]\<rparr>],
      stdout = [], stderr = [], clock_reads = 0\<rparr>"

definition demo_argv :: "string list" where
  "demo_argv = [''prog'', ''in.pdf'', ''out'']"

text \<open>A US Letter page, 612 by 792 units, with one black mark at its centre.\<close>

definition letter_page :: fz_page where
  "letter_page =
     \<lparr>page_bounds = \<lparr>rx0 = 0, ry0 = 0, rx1 = 612, ry1 = 792\<rparr>,
      page_marks = [(306, 396, 0)]\<rparr>"

definition letter_world :: world where
  "letter_world =
     \<lparr>files = [''in.pdf'' \<mapsto> DocFile \<lparr>doc_pages = [letter_page]\<rparr>],
      stdout = [], stderr = [], clock_reads = 0\<rparr>"

text \<open>A buffer of two rows of two pixels whose rows are three bytes apart.\<close>

definition demo_pix :: fz_pixmap where
  "demo_pix =
     \<lparr>pix_x = 0, pix_y = 0, pix_w = 2, pix_h = 2, pix_n = 1, pix_stride = 3,
      pix_samples = [1, 2, 0, 3, 4, 0]\<rparr>"

text \<open>An output prefix of 252 bytes.\<close>

definition long_prefix :: string where
  "long_prefix = replicate 252 (CHR ''a'')"

text \<open>
  A second run at another time: the heap holds other bytes, the clock has moved on, and a
  file of the output's name is already there.
\<close>

definition later_env :: env where
  "later_env =
     demo_env\<lparr>heap_junk := (\<lambda>k. 9), clock := (\<lambda>k. \<lparr>tv_sec = 100 + int k, tv_nsec = 5\<rparr>)\<rparr>"

definition later_world :: world where
  "later_world =
     demo_world\<lparr>files := (files demo_world)(''out.png'' \<mapsto> OtherFile [1, 2, 3]),
       clock_reads := 7\<rparr>"

section \<open>Properties\<close>

subsection \<open>The row table and the row loop\<close>

lemma row_offset_eq:
  assumes "0 \<le> y" "0 \<le> pix_stride pix" "y * pix_stride pix < 2 ^ 64"
  shows "row_offset pix y = nat (y * pix_stride pix)"
proof -
  have "row_offset pix y = nat ((y * pix_stride pix) mod 2 ^ 64)"
    unfolding row_offset_def
    by (simp add: unat_eq_nat_uint uint_word_ariths uint_word_of_int mod_mult_eq
          flip: of_int_mult)
  also have "\<dots> = nat (y * pix_stride pix)"
    using assms by simp
  finally show ?thesis .
qed

lemma fill_rows_eq:
  "0 \<le> y \<Longrightarrow> y \<le> pix_h pix \<Longrightarrow> length rows = nat (pix_h pix) \<Longrightarrow>
   fill_rows pix y rows =
     take (nat y) rows @ map (\<lambda>k. Some (row_offset pix (int k))) [nat y..<nat (pix_h pix)]"
proof (induction pix y rows rule: fill_rows.induct)
  case (1 pix y rows)
  show ?case
  proof (cases "y < pix_h pix")
    case True
    have ny: "nat (y + 1) = Suc (nat y)" using "1.prems" by simp
    have lt: "nat y < nat (pix_h pix)" using True "1.prems" by simp
    have "fill_rows pix y rows = fill_rows pix (y + 1) (rows[nat y := Some (row_offset pix y)])"
      using True by (subst fill_rows.simps) simp
    also have "\<dots> = take (nat (y + 1)) (rows[nat y := Some (row_offset pix y)]) @
        map (\<lambda>k. Some (row_offset pix (int k))) [nat (y + 1)..<nat (pix_h pix)]"
      using True "1.prems" by (intro "1.IH") simp_all
    also have "take (nat (y + 1)) (rows[nat y := Some (row_offset pix y)]) =
        take (nat y) rows @ [Some (row_offset pix y)]"
      using lt "1.prems" by (simp add: ny take_Suc_conv_app_nth)
    finally have step: "fill_rows pix y rows = (take (nat y) rows @ [Some (row_offset pix y)]) @
        map (\<lambda>k. Some (row_offset pix (int k))) [nat (y + 1)..<nat (pix_h pix)]" .
    have "[nat y..<nat (pix_h pix)] = nat y # [nat (y + 1)..<nat (pix_h pix)]"
      using lt by (simp add: ny upt_conv_Cons)
    with step show ?thesis using "1.prems" by simp
  next
    case False
    then have "y = pix_h pix" using "1.prems" by simp
    then show ?thesis using "1.prems" by (subst fill_rows.simps) simp
  qed
qed

lemma png_write_row_ok:
  assumes "png_info png = Some ih" "row = Some off" "off + png_rowbytes ih \<le> length mem"
    "\<not> png_fault E (AtWriteRow i)"
  shows "png_write_row E mem i row png =
     Inr (png\<lparr>png_out := png_out png @
            [PngRow (zlib_level png) (take (png_rowbytes ih) (drop off mem))]\<rparr>)"
  using assms by (simp add: png_write_row_def read_bytes_def)

lemma png_write_row_Inr:
  assumes "png_write_row E mem i row png = Inr png'"
  shows "\<not> png_fault E (AtWriteRow i) \<and> png_info png' = png_info png \<and>
         zlib_level png' = zlib_level png"
  using assms
  by (auto simp: png_write_row_def split: option.splits if_splits)

lemma png_write_row_no_bad_read:
  assumes "png_info png = Some ih" "row = Some off" "off + png_rowbytes ih \<le> length mem"
  shows "png_write_row E mem i row png \<noteq> Inl (BadRead, p)"
  using assms by (simp add: png_write_row_def read_bytes_def)

lemma png_write_rows_ok:
  assumes "png_info png = Some ih"
    and "\<And>k. i \<le> k \<Longrightarrow> k < ht \<Longrightarrow>
            k < length rows \<and> rows ! k = Some (off k) \<and> off k + png_rowbytes ih \<le> length mem"
    and "\<And>k. i \<le> k \<Longrightarrow> k < ht \<Longrightarrow> \<not> png_fault E (AtWriteRow k)"
  shows "png_write_rows E mem rows i ht png =
     Inr (png\<lparr>png_out := png_out png @
            map (\<lambda>k. PngRow (zlib_level png) (take (png_rowbytes ih) (drop (off k) mem)))
              [i..<ht]\<rparr>)"
  using assms
proof (induction E mem rows i ht png rule: png_write_rows.induct)
  case (1 E mem rows i ht png)
  show ?case
  proof (cases "i < ht")
    case False
    then show ?thesis by (subst png_write_rows.simps) simp
  next
    case True
    let ?png' = "png\<lparr>png_out := png_out png @
            [PngRow (zlib_level png) (take (png_rowbytes ih) (drop (off i) mem))]\<rparr>"
    have here: "i < length rows" "rows ! i = Some (off i)"
      "off i + png_rowbytes ih \<le> length mem"
      using "1.prems"(2) [of i] True by simp_all
    have row: "png_write_row E mem i (rows ! i) png = Inr ?png'"
      using "1.prems"(1) here "1.prems"(3) [of i] True
      by (intro png_write_row_ok) simp_all
    have "png_write_rows E mem rows (i + 1) ht ?png' =
        Inr (?png'\<lparr>png_out := png_out ?png' @
            map (\<lambda>k. PngRow (zlib_level ?png') (take (png_rowbytes ih) (drop (off k) mem)))
              [i + 1..<ht]\<rparr>)"
      using True here(1) row "1.prems" by (intro "1.IH") simp_all
    moreover have "[i..<ht] = i # [i + 1..<ht]"
      using True by (simp add: upt_conv_Cons)
    ultimately show ?thesis
      using True here(1) row by (subst png_write_rows.simps) simp
  qed
qed

lemma png_write_rows_no_bad_read:
  assumes "png_info png = Some ih"
    and "\<And>k. i \<le> k \<Longrightarrow> k < ht \<Longrightarrow>
            k < length rows \<and> rows ! k = Some (off k) \<and> off k + png_rowbytes ih \<le> length mem"
  shows "png_write_rows E mem rows i ht png \<noteq> Inl (BadRead, p)"
  using assms
proof (induction E mem rows i ht png rule: png_write_rows.induct)
  case (1 E mem rows i ht png)
  show ?case
  proof (cases "i < ht")
    case False
    then show ?thesis by (subst png_write_rows.simps) simp
  next
    case True
    have here: "i < length rows" "rows ! i = Some (off i)"
      "off i + png_rowbytes ih \<le> length mem"
      using "1.prems"(2) [of i] True by simp_all
    show ?thesis
    proof (cases "png_write_row E mem i (rows ! i) png")
      case (Inl a)
      then have "a \<noteq> (BadRead, p)"
        using png_write_row_no_bad_read [OF "1.prems"(1) here(2) here(3), of E i p] by auto
      then show ?thesis
        using True here(1) Inl by (subst png_write_rows.simps) simp
    next
      case (Inr png')
      then have "png_info png' = Some ih"
        using png_write_row_Inr [OF Inr] "1.prems"(1) by simp
      then have "png_write_rows E mem rows (i + 1) ht png' \<noteq> Inl (BadRead, p)"
        using True here(1) Inr "1.prems"(2) by (intro "1.IH") simp_all
      then show ?thesis
        using True here(1) Inr by (subst png_write_rows.simps) simp
    qed
  qed
qed

lemma png_write_rows_Inr_no_fault:
  assumes "png_write_rows E mem rows i ht png = Inr png'" "i \<le> k" "k < ht"
  shows "\<not> png_fault E (AtWriteRow k)"
  using assms
proof (induction E mem rows i ht png rule: png_write_rows.induct)
  case (1 E mem rows i ht png)
  from "1.prems" have lt: "i < ht" by simp
  from "1.prems"(1) lt have len: "i < length rows"
    by (subst (asm) png_write_rows.simps) (simp split: if_splits)
  from "1.prems"(1) lt len obtain p where
    row: "png_write_row E mem i (rows ! i) png = Inr p"
    and rest: "png_write_rows E mem rows (i + 1) ht p = Inr png'"
    by (subst (asm) png_write_rows.simps) (simp split: sum.splits)
  show ?case
  proof (cases "k = i")
    case True
    then show ?thesis using png_write_row_Inr [OF row] by simp
  next
    case False
    then have "i + 1 \<le> k" using "1.prems"(2) by simp
    then show ?thesis
      using lt len row rest "1.prems"(3) by (intro "1.IH") simp_all
  qed
qed

lemma rowbytes_gray8 [simp]: "png_rowbytes (gray8_header pix) = nat (pix_w pix)"
  by (simp add: png_rowbytes_def gray8_header_def)

lemma height_gray8 [simp]: "ihdr_height (gray8_header pix) = nat (pix_h pix)"
  by (simp add: gray8_header_def)

lemma pixmap_ok_stride: "pixmap_ok pix \<Longrightarrow> 0 \<le> pix_stride pix"
  by (simp add: pixmap_ok_def)

lemma row_offset_ok:
  assumes "pixmap_ok pix" "k < nat (pix_h pix)"
  shows "row_offset pix (int k) = k * nat (pix_stride pix)"
proof -
  have s: "0 \<le> pix_stride pix" using assms(1) by (rule pixmap_ok_stride)
  have "int k \<le> pix_h pix" using assms(2) by simp
  then have "int k * pix_stride pix \<le> pix_h pix * pix_stride pix"
    using s by (rule mult_right_mono)
  also have "\<dots> < 2 ^ 64" using assms(1) by (simp add: pixmap_ok_def mult.commute)
  finally have "row_offset pix (int k) = nat (int k * pix_stride pix)"
    using s by (intro row_offset_eq) simp_all
  then show ?thesis using s by (simp add: nat_mult_distrib)
qed

lemma rows_table:
  assumes "pixmap_ok pix"
  shows "fill_rows pix 0 (replicate (nat (pix_h pix)) None) =
     map (\<lambda>y. Some (y * nat (pix_stride pix))) [0..<nat (pix_h pix)]"
proof -
  have "fill_rows pix 0 (replicate (nat (pix_h pix)) None) =
      map (\<lambda>k. Some (row_offset pix (int k))) [0..<nat (pix_h pix)]"
    using assms fill_rows_eq [of 0 pix "replicate (nat (pix_h pix)) None"]
    by (simp add: pixmap_ok_def)
  also have "\<dots> = map (\<lambda>y. Some (y * nat (pix_stride pix))) [0..<nat (pix_h pix)]"
    using assms by (intro map_cong) (simp_all add: row_offset_ok)
  finally show ?thesis .
qed

lemma row_in_buffer:
  assumes "pixmap_ok pix" "y < nat (pix_h pix)"
  shows "y * nat (pix_stride pix) + nat (pix_w pix) \<le> length (pix_samples pix)"
proof -
  have s: "0 \<le> pix_stride pix" using assms(1) by (rule pixmap_ok_stride)
  have "y * nat (pix_stride pix) + nat (pix_w pix) \<le> Suc y * nat (pix_stride pix)"
    using assms(1) nat_mono [of "pix_w pix" "pix_stride pix"] by (simp add: pixmap_ok_def)
  also have "\<dots> \<le> nat (pix_h pix) * nat (pix_stride pix)"
    using assms(2) by (intro mult_le_mono1) simp
  also have "\<dots> = length (pix_samples pix)"
    using assms(1) s by (simp add: pixmap_ok_def nat_mult_distrib mult.commute)
  finally show ?thesis .
qed

lemma set_IHDR_gray8:
  assumes "pixmap_ok pix" "\<not> png_fault E AtSetIHDR"
  shows "png_set_IHDR E png (pix_w pix) (pix_h pix) 8 PNG_COLOR_TYPE_GRAY PNG_INTERLACE_NONE =
     Inr (png\<lparr>png_info := Some (gray8_header pix)\<rparr>)"
proof -
  have "pix_w pix mod 2 ^ 32 = pix_w pix" "pix_h pix mod 2 ^ 32 = pix_h pix"
    using assms(1) by (simp_all add: pixmap_ok_def)
  then show ?thesis using assms(2) by (simp add: png_set_IHDR_def gray8_header_def)
qed

lemma rows_valid:
  assumes "pixmap_ok pix" "k < nat (pix_h pix)"
  shows "k < length (map (\<lambda>y. Some (y * nat (pix_stride pix))) [0..<nat (pix_h pix)]) \<and>
     map (\<lambda>y. Some (y * nat (pix_stride pix))) [0..<nat (pix_h pix)] ! k =
       Some (k * nat (pix_stride pix)) \<and>
     k * nat (pix_stride pix) + png_rowbytes (gray8_header pix) \<le> length (pix_samples pix)"
  using assms row_in_buffer [OF assms] by simp

lemma png_encode_ok:
  assumes ok: "pixmap_ok pix" and nf: "\<not> png_fails E (nat (pix_h pix))"
  shows "png_encode E pix png_create_write_struct =
     Inr \<lparr>zlib_level = 1, png_info = Some (gray8_header pix), png_out = png_image pix\<rparr>"
proof -
  let ?p1 = "\<lparr>zlib_level = 1, png_info = Some (gray8_header pix),
              png_out = [PngHeader (gray8_header pix)]\<rparr>"
  let ?rows = "map (\<lambda>y. Some (y * nat (pix_stride pix))) [0..<nat (pix_h pix)]"
  have f: "\<not> png_fault E AtSetIHDR" "\<not> png_fault E AtWriteInfo" "\<not> png_fault E AtWriteEnd"
    "\<And>k. k < nat (pix_h pix) \<Longrightarrow> \<not> png_fault E (AtWriteRow k)"
    using nf by (auto simp: png_fails_def)
  have rows: "png_write_rows E (pix_samples pix) ?rows 0 (nat (pix_h pix)) ?p1 =
      Inr (?p1\<lparr>png_out := png_out ?p1 @
            map (\<lambda>k. PngRow (zlib_level ?p1)
                   (take (png_rowbytes (gray8_header pix))
                      (drop (k * nat (pix_stride pix)) (pix_samples pix))))
              [0..<nat (pix_h pix)]\<rparr>)"
    using rows_valid [OF ok] f(4) by (intro png_write_rows_ok) simp_all
  have img: "png_write_image E (pix_samples pix) ?p1 ?rows =
      Inr \<lparr>zlib_level = 1, png_info = Some (gray8_header pix),
           png_out = PngHeader (gray8_header pix)
              # map (\<lambda>y. PngRow 1 (scanline pix y)) [0..<nat (pix_h pix)]\<rparr>"
    unfolding png_write_image_def using rows
    by (simp add: scanline_def)
  show ?thesis
    unfolding png_encode_def
    by (simp add: Let_def png_set_compression_level_def png_create_write_struct_def
          set_IHDR_gray8 [OF ok f(1)] png_write_info_def f rows_table [OF ok] img
          png_write_end_def png_image_def)
qed

lemma png_encode_no_bad_read:
  assumes ok: "pixmap_ok pix"
  shows "png_encode E pix png_create_write_struct \<noteq> Inl (BadRead, p)"
proof (cases "png_fault E AtSetIHDR \<or> png_fault E AtWriteInfo")
  case True
  then show ?thesis
    using set_IHDR_gray8 [OF ok]
    by (auto simp: png_encode_def Let_def png_set_IHDR_def png_write_info_def
          png_set_compression_level_def png_create_write_struct_def)
next
  case False
  let ?p1 = "\<lparr>zlib_level = 1, png_info = Some (gray8_header pix),
              png_out = [PngHeader (gray8_header pix)]\<rparr>"
  let ?rows = "map (\<lambda>y. Some (y * nat (pix_stride pix))) [0..<nat (pix_h pix)]"
  have nb: "png_write_rows E (pix_samples pix) ?rows 0 (nat (pix_h pix)) ?p1 \<noteq> Inl (BadRead, p)"
    using rows_valid [OF ok]
    by (intro png_write_rows_no_bad_read
          [where off = "\<lambda>k. k * nat (pix_stride pix)" and ih = "gray8_header pix"])
       simp_all
  have enc: "png_encode E pix png_create_write_struct =
      (case png_write_rows E (pix_samples pix) ?rows 0 (nat (pix_h pix)) ?p1 of
         Inl a \<Rightarrow> Inl a | Inr png \<Rightarrow> png_write_end E png)"
    using False
    by (simp add: png_encode_def Let_def png_set_compression_level_def
          png_create_write_struct_def set_IHDR_gray8 [OF ok] png_write_info_def
          rows_table [OF ok] png_write_image_def)
  show ?thesis
    using nb unfolding enc by (auto simp: png_write_end_def split: sum.splits)
qed

lemma png_encode_Inr_no_fault:
  assumes ok: "pixmap_ok pix" and r: "png_encode E pix png_create_write_struct = Inr p"
  shows "\<not> png_fails E (nat (pix_h pix))"
proof -
  let ?p1 = "\<lparr>zlib_level = 1, png_info = Some (gray8_header pix),
              png_out = [PngHeader (gray8_header pix)]\<rparr>"
  let ?rows = "map (\<lambda>y. Some (y * nat (pix_stride pix))) [0..<nat (pix_h pix)]"
  have f1: "\<not> png_fault E AtSetIHDR"
    using r by (auto simp: png_encode_def Let_def png_set_IHDR_def split: if_splits)
  have f2: "\<not> png_fault E AtWriteInfo"
    using r f1
    by (auto simp: png_encode_def Let_def set_IHDR_gray8 [OF ok] png_write_info_def
          split: if_splits)
  have enc: "png_encode E pix png_create_write_struct =
      (case png_write_rows E (pix_samples pix) ?rows 0 (nat (pix_h pix)) ?p1 of
         Inl a \<Rightarrow> Inl a | Inr png \<Rightarrow> png_write_end E png)"
    using f1 f2
    by (simp add: png_encode_def Let_def png_set_compression_level_def
          png_create_write_struct_def set_IHDR_gray8 [OF ok] png_write_info_def
          rows_table [OF ok] png_write_image_def)
  from r obtain q where
    q: "png_write_rows E (pix_samples pix) ?rows 0 (nat (pix_h pix)) ?p1 = Inr q"
    and e: "png_write_end E q = Inr p"
    unfolding enc by (auto split: sum.splits)
  have f3: "\<not> png_fault E AtWriteEnd"
    using e by (auto simp: png_write_end_def split: if_splits)
  have f4: "\<not> png_fault E (AtWriteRow k)" if "k < nat (pix_h pix)" for k
    using png_write_rows_Inr_no_fault [OF q, of k] that by simp
  show ?thesis
    using f1 f2 f3 f4 by (auto simp: png_fails_def)
qed

lemma png_encode_fault:
  assumes ok: "pixmap_ok pix" and f: "png_fails E (nat (pix_h pix))"
  shows "\<exists>p. png_encode E pix png_create_write_struct = Inl (PngError, p)"
proof (cases "png_encode E pix png_create_write_struct")
  case (Inr p)
  then show ?thesis using png_encode_Inr_no_fault [OF ok Inr] f by simp
next
  case (Inl a)
  obtain c p where a: "a = (c, p)" by (cases a)
  have "c \<noteq> BadRead"
    using png_encode_no_bad_read [OF ok, of E p] Inl a by auto
  then have "c = PngError" by (cases c) simp_all
  then show ?thesis using Inl a by simp
qed

lemma write_png_fast_no_open:
  assumes "fopen_errno E fname = Some msg"
  shows "write_png_fast E pix fname W =
     (Inl (Exit 2), W\<lparr>stderr := stderr W @ [''fopen: '' @ msg @ [CHR 0x0A]]\<rparr>)"
  using assms by (simp add: write_png_fast_def)

lemma write_png_fast_ok:
  assumes "fopen_errno E fname = None" "pixmap_ok pix" "\<not> png_fails E (nat (pix_h pix))"
  shows "write_png_fast E pix fname W =
     (Inr (), W\<lparr>files := (files W)(fname \<mapsto> PngFile (png_image pix))\<rparr>)"
  using assms(1) png_encode_ok [OF assms(2,3)] by (simp add: write_png_fast_def)

lemma write_png_fast_png_error:
  assumes "fopen_errno E fname = None" "pixmap_ok pix" "png_fails E (nat (pix_h pix))"
  shows "fst (write_png_fast E pix fname W) = Inl (Exit 3)"
proof -
  from png_encode_fault [OF assms(2,3)] obtain p where
    "png_encode E pix png_create_write_struct = Inl (PngError, p)" ..
  then show ?thesis using assms(1) by (simp add: write_png_fast_def)
qed

lemma write_png_fast_defined:
  assumes "pixmap_ok pix"
  shows "fst (write_png_fast E pix fname W) \<noteq> Inl Undefined"
  using png_encode_no_bad_read [OF assms, of E]
  by (auto simp: write_png_fast_def split: option.splits sum.splits prod.splits png_abort.splits)

lemma length_draw [simp]: "length (draw ws buf) = length buf"
  unfolding draw_def by (induction ws arbitrary: buf) simp_all

lemma draw_nth:
  "i < length buf \<Longrightarrow> draw ws buf ! i = buf ! i \<or> (i, draw ws buf ! i) \<in> set ws"
proof (induction ws arbitrary: buf)
  case Nil
  then show ?case by (simp add: draw_def)
next
  case (Cons wr ws)
  have unfold: "draw (wr # ws) buf = draw ws (buf[fst wr := snd wr])"
    by (simp add: draw_def)
  have "draw ws (buf[fst wr := snd wr]) ! i = buf[fst wr := snd wr] ! i
      \<or> (i, draw ws (buf[fst wr := snd wr]) ! i) \<in> set ws"
    using Cons.prems by (intro Cons.IH) simp
  then show ?case
    unfolding unfold using Cons.prems
    by (cases "i = fst wr") (auto simp: prod_eq_iff)
qed

lemma transform_scale4:
  assumes "rx0 r \<le> rx1 r" "ry0 r \<le> ry1 r"
  shows "fz_transform_rect r (fz_scale 4 4) =
     \<lparr>rx0 = 4 * rx0 r, ry0 = 4 * ry0 r, rx1 = 4 * rx1 r, ry1 = 4 * ry1 r\<rparr>"
  using assms by (simp add: fz_transform_rect_def fz_transform_point_def fz_scale_def Let_def)

lemma page_bbox_valid:
  assumes "valid_page page"
  shows "page_bbox page =
     \<lparr>ix0 = \<lfloor>4 * rx0 (page_bounds page)\<rfloor>, iy0 = \<lfloor>4 * ry0 (page_bounds page)\<rfloor>,
      ix1 = \<lceil>4 * rx1 (page_bounds page)\<rceil>, iy1 = \<lceil>4 * ry1 (page_bounds page)\<rceil>\<rparr>"
  using assms
  by (simp add: page_bbox_def fz_bound_page_def valid_page_def transform_scale4 fz_round_rect_def)

lemma scaled_extent:
  fixes a b :: real
  assumes "a \<le> b" "- (2 ^ 22) \<le> a" "b \<le> 2 ^ 22"
  shows "0 \<le> \<lceil>4 * b\<rceil> - \<lfloor>4 * a\<rfloor>" "\<lceil>4 * b\<rceil> - \<lfloor>4 * a\<rfloor> \<le> 2 ^ 25"
proof -
  have "\<lfloor>4 * a\<rfloor> \<le> \<lceil>4 * b\<rceil>"
  proof -
    have "of_int \<lfloor>4 * a\<rfloor> \<le> 4 * a" by simp
    also have "\<dots> \<le> 4 * b" using assms(1) by simp
    also have "\<dots> \<le> of_int \<lceil>4 * b\<rceil>" by simp
    finally show ?thesis by simp
  qed
  then show "0 \<le> \<lceil>4 * b\<rceil> - \<lfloor>4 * a\<rfloor>" by simp
  have "- 16777216 \<le> \<lfloor>4 * a\<rfloor>"
    using assms(2) by (simp add: le_floor_iff)
  moreover have "\<lceil>4 * b\<rceil> \<le> 16777216"
    using assms(3) by (simp add: ceiling_le_iff)
  ultimately have "\<lceil>4 * b\<rceil> - \<lfloor>4 * a\<rfloor> \<le> 33554432" by linarith
  then show "\<lceil>4 * b\<rceil> - \<lfloor>4 * a\<rfloor> \<le> 2 ^ 25" by simp
qed

lemma rendered_geometry:
  "pix_w (rendered_pixmap E page) = ix1 (page_bbox page) - ix0 (page_bbox page)"
  "pix_h (rendered_pixmap E page) = iy1 (page_bbox page) - iy0 (page_bbox page)"
  "pix_stride (rendered_pixmap E page) = 2 * (ix1 (page_bbox page) - ix0 (page_bbox page))"
  "pix_w (blank_pixmap E page) = ix1 (page_bbox page) - ix0 (page_bbox page)"
  "pix_h (blank_pixmap E page) = iy1 (page_bbox page) - iy0 (page_bbox page)"
  "pix_stride (blank_pixmap E page) = 2 * (ix1 (page_bbox page) - ix0 (page_bbox page))"
  by (simp_all add: rendered_pixmap_def blank_pixmap_def fz_close_device_def fz_run_page_def
        fz_new_draw_device_def fz_clear_pixmap_with_value_def fz_new_pixmap_with_bbox_def
        fz_device_gray_def Let_def)

lemma blank_samples:
  "pix_samples (blank_pixmap E page) =
     replicate (nat (pix_stride (blank_pixmap E page) * pix_h (blank_pixmap E page))) 255"
  by (simp add: blank_pixmap_def fz_clear_pixmap_with_value_def fz_new_pixmap_with_bbox_def
        fz_device_gray_def Let_def)

lemma rendered_samples:
  "pix_samples (rendered_pixmap E page) =
     draw (raster E page (fz_concat (fz_scale 4 4) (fz_scale 4 4)) (blank_pixmap E page))
       (pix_samples (blank_pixmap E page))"
  by (simp add: rendered_pixmap_def fz_close_device_def fz_run_page_def
        fz_new_draw_device_def Let_def)

lemma rendered_ok:
  assumes "valid_page page"
  shows "pixmap_ok (rendered_pixmap E page)"
proof -
  define wd where "wd = \<lceil>4 * rx1 (page_bounds page)\<rceil> - \<lfloor>4 * rx0 (page_bounds page)\<rfloor>"
  define ht where "ht = \<lceil>4 * ry1 (page_bounds page)\<rceil> - \<lfloor>4 * ry0 (page_bounds page)\<rfloor>"
  have w: "0 \<le> wd" "wd \<le> 2 ^ 25"
    using assms scaled_extent [of "rx0 (page_bounds page)" "rx1 (page_bounds page)"]
    by (simp_all add: valid_page_def wd_def)
  have h: "0 \<le> ht" "ht \<le> 2 ^ 25"
    using assms scaled_extent [of "ry0 (page_bounds page)" "ry1 (page_bounds page)"]
    by (simp_all add: valid_page_def ht_def)
  have "wd * ht \<le> 2 ^ 25 * 2 ^ 25"
    using w h by (intro mult_mono) simp_all
  then have "wd * ht \<le> 1125899906842624" by simp
  then have "2 * (wd * ht) < 18446744073709551616" by linarith
  moreover have "2 * wd * ht = 2 * (wd * ht)" by simp
  ultimately have area: "2 * wd * ht < 2 ^ 64" by simp
  have geo: "pix_w (rendered_pixmap E page) = wd" "pix_h (rendered_pixmap E page) = ht"
    "pix_stride (rendered_pixmap E page) = 2 * wd"
    by (simp_all add: rendered_geometry page_bbox_valid [OF assms] wd_def ht_def)
  have len: "length (pix_samples (rendered_pixmap E page)) = nat (2 * wd * ht)"
    by (simp add: rendered_samples blank_samples rendered_geometry(4-6)
          page_bbox_valid [OF assms] wd_def ht_def)
  show ?thesis
    unfolding pixmap_ok_def geo len using w h area by simp
qed

lemma main_usage:
  assumes "length argv \<noteq> 3"
  shows "main E argv W = (Exit 1, W\<lparr>stderr := stderr W @ [usage argv]\<rparr>)"
  using assms by (simp add: main_def)

lemma main_no_document:
  assumes "length argv = 3" "\<forall>doc. files W (argv ! 1) \<noteq> Some (DocFile doc)"
  shows "main E argv W = (Abort DocumentOpenError, W\<lparr>clock_reads := clock_reads W + 1\<rparr>)"
  using assms
  by (auto simp: main_def clock_gettime_def fz_open_document_def
        split: option.splits file_content.splits)

lemma main_no_page:
  assumes "length argv = 3" "files W (argv ! 1) = Some (DocFile doc)" "doc_pages doc = []"
  shows "main E argv W = (Abort PageLoadError, W\<lparr>clock_reads := clock_reads W + 1\<rparr>)"
  using assms
  by (simp add: main_def clock_gettime_def fz_open_document_def fz_load_page_def)

lemma main_run:
  assumes "length argv = 3" "files W (argv ! 1) = Some (DocFile doc)"
    "doc_pages doc = page # rest"
  shows "main E argv W =
     (case write_png_fast E (rendered_pixmap E page) (out_name argv)
             (W\<lparr>clock_reads := clock_reads W + 1\<rparr>) of
        (Inl stop, W') \<Rightarrow> (stop, W')
      | (Inr u, W') \<Rightarrow>
          (Exit 0, W'\<lparr>clock_reads := clock_reads W' + 1,
                      stdout := stdout W' @
                        [Yielded (out_name argv) (clock E (clock_reads W))
                           (clock E (clock_reads W'))]\<rparr>))"
  using assms
  by (simp add: main_def clock_gettime_def fz_open_document_def fz_load_page_def Let_def
        rendered_pixmap_def blank_pixmap_def page_bbox_def out_name_def
        split: prod.splits sum.splits)

subsection \<open>Compression level, drawing, and the runs of \<^verbatim>\<open>main\<close>\<close>

lemma row_levels_append [simp]: "row_levels (xs @ ys) = row_levels xs @ row_levels ys"
  by (induction xs rule: row_levels.induct) simp_all

lemma png_write_row_levels:
  assumes "levels_ok l png"
  shows "levels_ok l (png_state_of (png_write_row E mem i row png))"
  using assms
  by (auto simp: png_write_row_def png_state_of_def levels_ok_def split: option.splits)

lemma png_write_rows_levels:
  assumes "levels_ok l png"
  shows "levels_ok l (png_state_of (png_write_rows E mem rows i ht png))"
  using assms
proof (induction E mem rows i ht png rule: png_write_rows.induct)
  case (1 E mem rows i ht png)
  show ?case
  proof (cases "i < ht \<and> i < length rows")
    case False
    then show ?thesis
      using "1.prems" by (subst png_write_rows.simps) (auto simp: png_state_of_def)
  next
    case True
    show ?thesis
    proof (cases "png_write_row E mem i (rows ! i) png")
      case (Inl a)
      then show ?thesis
        using True png_write_row_levels [OF "1.prems", of E mem i "rows ! i"]
        by (subst png_write_rows.simps) (simp add: png_state_of_def)
    next
      case (Inr p)
      then have "levels_ok l p"
        using png_write_row_levels [OF "1.prems", of E mem i "rows ! i"]
        by (simp add: png_state_of_def)
      then have "levels_ok l (png_state_of (png_write_rows E mem rows (i + 1) ht p))"
        using True Inr by (intro "1.IH") simp_all
      then show ?thesis
        using True Inr by (subst png_write_rows.simps) simp
    qed
  qed
qed

lemma png_encode_levels:
  "levels_ok 1 (png_state_of (png_encode E pix png_create_write_struct))"
proof -
  let ?p0 = "png_set_compression_level png_create_write_struct 1"
  have l0: "levels_ok 1 ?p0"
    by (simp add: levels_ok_def png_set_compression_level_def png_create_write_struct_def)
  show ?thesis
  proof (cases "png_set_IHDR E ?p0 (pix_w pix) (pix_h pix) 8 PNG_COLOR_TYPE_GRAY PNG_INTERLACE_NONE")
    case (Inl a)
    then show ?thesis
      using l0 by (auto simp: png_encode_def Let_def png_state_of_def png_set_IHDR_def
            split: if_splits)
  next
    case (Inr p1)
    then have l1: "levels_ok 1 p1"
      using l0 by (auto simp: png_set_IHDR_def levels_ok_def split: if_splits)
    show ?thesis
    proof (cases "png_write_info E p1")
      case (Inl a)
      then show ?thesis
        using l1 Inr by (auto simp: png_encode_def Let_def png_state_of_def png_write_info_def
              split: if_splits option.splits)
    next
      case info: (Inr p2)
      then have l2: "levels_ok 1 p2"
        using l1 by (auto simp: png_write_info_def levels_ok_def split: if_splits option.splits)
      let ?rows = "fill_rows pix 0 (replicate (nat (pix_h pix)) None)"
      have l3: "levels_ok 1 (png_state_of (png_write_image E (pix_samples pix) p2 ?rows))"
        using l2 png_write_rows_levels [OF l2]
        by (auto simp: png_write_image_def png_state_of_def split: option.splits)
      show ?thesis
      proof (cases "png_write_image E (pix_samples pix) p2 ?rows")
        case (Inl a)
        then show ?thesis
          using l3 Inr info by (simp add: png_encode_def Let_def png_state_of_def)
      next
        case img: (Inr p3)
        then have "levels_ok 1 p3" using l3 by (simp add: png_state_of_def)
        then have "levels_ok 1 (png_state_of (png_write_end E p3))"
          by (auto simp: png_write_end_def png_state_of_def levels_ok_def)
        then show ?thesis
          using Inr info img by (simp add: png_encode_def Let_def)
      qed
    qed
  qed
qed

lemma write_png_fast_levels:
  assumes "fopen_errno E fname = None"
  shows "set (file_row_levels (files (snd (write_png_fast E pix fname W)) fname)) \<subseteq> {1}"
  using assms png_encode_levels [of E pix]
  by (auto simp: write_png_fast_def file_row_levels_def png_state_of_def levels_ok_def
        split: sum.splits prod.splits png_abort.splits)

lemma row_levels_png_image: "row_levels (png_image pix) = replicate (nat (pix_h pix)) 1"
proof -
  have "row_levels (map (\<lambda>y. PngRow 1 (scanline pix y)) ys) = replicate (length ys) 1" for ys
    by (induction ys) simp_all
  then show ?thesis by (simp add: png_image_def)
qed

lemma no_fault_no_fail: "(\<And>s. \<not> png_fault E s) \<Longrightarrow> \<not> png_fails E ht"
  by (simp add: png_fails_def)

lemma draw_replicate_set:
  assumes "b \<in> set (draw ws (replicate n c))"
  shows "b = c \<or> b \<in> snd ` set ws"
proof -
  from assms obtain i where i: "i < n" and b: "draw ws (replicate n c) ! i = b"
    by (auto simp: in_set_conv_nth)
  from draw_nth [of i "replicate n c" ws] i b
  have "b = c \<or> (i, b) \<in> set ws" by auto
  then show ?thesis by force
qed

lemma scanline_subset: "set (scanline pix y) \<subseteq> set (pix_samples pix)"
  unfolding scanline_def
  using set_take_subset set_drop_subset by (rule subset_trans)

lemma render_ctm: "fz_concat (fz_scale 4 4) (fz_scale 4 4) = fz_scale 16 16"
  by (simp add: fz_concat_def fz_scale_def)

lemma rendered_height_valid:
  assumes "valid_page page"
  shows "pix_h (rendered_pixmap E page) =
     \<lceil>4 * ry1 (page_bounds page)\<rceil> - \<lfloor>4 * ry0 (page_bounds page)\<rfloor>"
    and "pix_w (rendered_pixmap E page) =
     \<lceil>4 * rx1 (page_bounds page)\<rceil> - \<lfloor>4 * rx0 (page_bounds page)\<rfloor>"
  by (simp_all add: rendered_geometry page_bbox_valid [OF assms])

lemma main_success:
  assumes "length argv = 3" "files W (argv ! 1) = Some (DocFile doc)"
    "doc_pages doc = page # rest" "valid_page page"
    "fopen_errno E (out_name argv) = None"
    "\<not> png_fails E (nat (pix_h (rendered_pixmap E page)))"
  shows "main E argv W =
     (Exit 0,
      W\<lparr>clock_reads := clock_reads W + 2,
        files := (files W)(out_name argv \<mapsto> PngFile (png_image (rendered_pixmap E page))),
        stdout := stdout W @
          [Yielded (out_name argv) (clock E (clock_reads W)) (clock E (clock_reads W + 1))]\<rparr>)"
  unfolding main_run [OF assms(1-3)]
    write_png_fast_ok [OF assms(5) rendered_ok [OF assms(4)] assms(6)]
  by simp

lemma main_no_open:
  assumes "length argv = 3" "files W (argv ! 1) = Some (DocFile doc)"
    "doc_pages doc = page # rest" "fopen_errno E (out_name argv) = Some msg"
  shows "main E argv W =
     (Exit 2, W\<lparr>clock_reads := clock_reads W + 1, stderr := stderr W @ [''fopen: '' @ msg @ [CHR 0x0A]]\<rparr>)"
  unfolding main_run [OF assms(1-3)] write_png_fast_no_open [OF assms(4)]
  by simp

lemma main_png_error:
  assumes "length argv = 3" "files W (argv ! 1) = Some (DocFile doc)"
    "doc_pages doc = page # rest" "valid_page page"
    "fopen_errno E (out_name argv) = None"
    "png_fails E (nat (pix_h (rendered_pixmap E page)))"
  shows "fst (main E argv W) = Exit 3"
  using write_png_fast_png_error [where W = "W\<lparr>clock_reads := clock_reads W + 1\<rparr>",
      OF assms(5) rendered_ok [OF assms(4)] assms(6)]
  unfolding main_run [OF assms(1-3)]
  by (auto split: prod.splits sum.splits)

lemma main_defined:
  assumes "length argv = 3" "files W (argv ! 1) = Some (DocFile doc)"
    "doc_pages doc = page # rest" "valid_page page"
  shows "fst (main E argv W) \<noteq> Undefined"
  using write_png_fast_defined [where pix = "rendered_pixmap E page" and E = E
      and fname = "out_name argv" and W = "W\<lparr>clock_reads := clock_reads W + 1\<rparr>",
      OF rendered_ok [OF assms(4)]]
  unfolding main_run [OF assms(1-3)]
  by (auto split: prod.splits sum.splits)

lemma blank_pixmap_env: "blank_pixmap E page = blank_pixmap E' page"
  by (simp add: blank_pixmap_def fz_clear_pixmap_with_value_def fz_new_pixmap_with_bbox_def
        Let_def)

lemma rendered_pixmap_env:
  assumes "raster E = raster E'"
  shows "rendered_pixmap E page = rendered_pixmap E' page"
  using assms blank_pixmap_env [of E page E']
  by (simp add: rendered_pixmap_def fz_run_page_def fz_new_draw_device_def fz_close_device_def
        Let_def)

lemma blank_origin:
  "pix_x (blank_pixmap E page) = ix0 (page_bbox page)"
  "pix_y (blank_pixmap E page) = iy0 (page_bbox page)"
  "pix_n (blank_pixmap E page) = 2"
  by (simp_all add: blank_pixmap_def fz_clear_pixmap_with_value_def fz_new_pixmap_with_bbox_def
        fz_device_gray_def Let_def)

lemma rendered_as_drawn:
  "rendered_pixmap E page =
     (blank_pixmap E page)\<lparr>pix_samples :=
        draw (raster E page (fz_scale 16 16) (blank_pixmap E page))
          (pix_samples (blank_pixmap E page))\<rparr>"
  by (simp add: rendered_pixmap_def fz_close_device_def fz_run_page_def
        fz_new_draw_device_def Let_def render_ctm)

lemma main_exit0_file:
  assumes "length argv = 3" "files W (argv ! 1) = Some (DocFile doc)"
    "doc_pages doc = page # rest" "valid_page page" "fst (main E argv W) = Exit 0"
  shows "files (snd (main E argv W)) (out_name argv) =
     Some (PngFile (png_image (rendered_pixmap E page)))"
proof (cases "fopen_errno E (out_name argv)")
  case (Some msg)
  then show ?thesis
    using main_no_open [OF assms(1-3) Some] assms(5) by simp
next
  case None
  show ?thesis
  proof (cases "png_fails E (nat (pix_h (rendered_pixmap E page)))")
    case True
    then show ?thesis
      using main_png_error [OF assms(1-4) None True] assms(5) by simp
  next
    case False
    then show ?thesis
      using main_success [OF assms(1-4) None False] by simp
  qed
qed

lemma png_image_rows:
  assumes "PngRow lvl bs \<in> set (png_image pix)"
  shows "lvl = 1 \<and> (\<exists>y < nat (pix_h pix). bs = scanline pix y)"
  using assms by (auto simp: png_image_def)

lemma valid_demo_page: "valid_page demo_page"
  by (simp add: valid_page_def demo_page_def)

lemma valid_letter_page: "valid_page letter_page"
  by (simp add: valid_page_def letter_page_def)

lemma out_name_short:
  assumes "length (argv ! 2) \<le> 251"
  shows "out_name argv = argv ! 2 @ ''.png''"
  using assms by (simp add: out_name_def snprintf_def)

lemma out_name_demo: "out_name demo_argv = ''out.png''"
  by (simp add: out_name_def snprintf_def demo_argv_def)

lemma doc_demo_world: "files demo_world (demo_argv ! 1) = Some (DocFile \<lparr>doc_pages = [demo_page]\<rparr>)"
  by (simp add: demo_world_def demo_argv_def)

lemma doc_letter_world:
  "files letter_world (demo_argv ! 1) = Some (DocFile \<lparr>doc_pages = [letter_page]\<rparr>)"
  by (simp add: letter_world_def demo_argv_def)

lemma length_demo_argv: "length demo_argv = 3"
  by (simp add: demo_argv_def)

lemma main_no_document':
  assumes "length argv = 3" "\<not> openable W (argv ! 1)"
  shows "main E argv W = (Abort DocumentOpenError, W\<lparr>clock_reads := clock_reads W + 1\<rparr>)"
proof -
  have "\<forall>doc. files W (argv ! 1) \<noteq> Some (DocFile doc)"
    using assms(2) by (auto simp: openable_def)
  with assms(1) show ?thesis by (rule main_no_document)
qed

lemma file_header_png_image [simp]:
  "file_header (Some (PngFile (png_image pix))) = Some (gray8_header pix)"
  by (simp add: file_header_def png_image_def)

lemma page_bbox_letter:
  "page_bbox letter_page = \<lparr>ix0 = 0, iy0 = 0, ix1 = 2448, iy1 = 3168\<rparr>"
  by (simp add: page_bbox_valid [OF valid_letter_page]) (simp add: letter_page_def)

lemma marks_letter: "page_marks letter_page = [(306, 396, 0)]"
  by (simp add: letter_page_def)

lemma plot_letter_16:
  "plot_marks letter_page (fz_scale 16 16) (blank_pixmap E letter_page) = []"
  by (simp add: plot_marks_def blank_origin rendered_geometry(4-6) page_bbox_letter
        marks_letter fz_transform_point_def fz_scale_def Let_def)

lemma plot_letter_4:
  "plot_marks letter_page (fz_scale 4 4) (blank_pixmap E letter_page) = [(7757712, 0)]"
  by (simp add: plot_marks_def blank_origin rendered_geometry(4-6) page_bbox_letter
        marks_letter fz_transform_point_def fz_scale_def Let_def)

lemma rendered_letter: "rendered_pixmap demo_env letter_page = blank_pixmap demo_env letter_page"
proof -
  have "raster demo_env = plot_marks" by (simp add: demo_env_def)
  then show ?thesis
    by (simp add: rendered_as_drawn plot_letter_16 draw_def)
qed

lemma out_name_long: "out_name [''prog'', ''in.pdf'', long_prefix] = long_prefix @ ''.pn''"
  by (simp add: out_name_def snprintf_def long_prefix_def)

lemma long_name_fresh: "files demo_world (long_prefix @ ''.png'') = None"
proof -
  have "length (long_prefix @ ''.png'') \<noteq> length ''in.pdf''"
    by (simp add: long_prefix_def)
  then have "long_prefix @ ''.png'' \<noteq> ''in.pdf''" by metis
  then show ?thesis by (simp add: demo_world_def)
qed

section \<open>The claims\<close>

text \<open>
  C1. For a document whose only page is valid, when the output can be opened and libpng
  does not fail, the run ends with status 0 and the header of the image it wrote declares
  a width of \<open>\<lceil>4 x1\<rceil> - \<lfloor>4 x0\<rfloor>\<close> and a height of \<open>\<lceil>4 y1\<rceil> - \<lfloor>4 y0\<rfloor>\<close> pixels for
  the page box \<open>(x0, y0, x1, y1)\<close>, that is the box scaled by 4 and rounded outward,
  with 8 bits per sample, grayscale, not interlaced. For the box from the origin to
  (612, 792) that is 2448 by 3168 pixels.
\<close>

theorem C1_image_size:
  assumes "length argv = 3" "files W (argv ! 1) = Some (DocFile doc)" "doc_pages doc = [page]"
    "valid_page page" "fopen_errno E (out_name argv) = None" "\<forall>s. \<not> png_fault E s"
  shows "fst (main E argv W) = Exit 0
       \<and> file_header (files (snd (main E argv W)) (out_name argv)) =
           Some \<lparr>ihdr_width = nat (\<lceil>4 * rx1 (page_bounds page)\<rceil> - \<lfloor>4 * rx0 (page_bounds page)\<rfloor>),
                 ihdr_height = nat (\<lceil>4 * ry1 (page_bounds page)\<rceil> - \<lfloor>4 * ry0 (page_bounds page)\<rfloor>),
                 ihdr_bit_depth = 8, ihdr_color_type = PNG_COLOR_TYPE_GRAY,
                 ihdr_interlace = PNG_INTERLACE_NONE\<rparr>
       \<and> (page_bounds page = \<lparr>rx0 = 0, ry0 = 0, rx1 = 612, ry1 = 792\<rparr> \<longrightarrow>
            file_header (files (snd (main E argv W)) (out_name argv)) =
              Some \<lparr>ihdr_width = 2448, ihdr_height = 3168, ihdr_bit_depth = 8,
                    ihdr_color_type = PNG_COLOR_TYPE_GRAY,
                    ihdr_interlace = PNG_INTERLACE_NONE\<rparr>)"
proof -
  have nf: "\<not> png_fails E (nat (pix_h (rendered_pixmap E page)))"
    using assms(6) by (simp add: png_fails_def)
  have pages: "doc_pages doc = page # []" using assms(3) by simp
  note m = main_success [OF assms(1,2) pages assms(4,5) nf]
  have hd: "file_header (files (snd (main E argv W)) (out_name argv)) =
      Some (gray8_header (rendered_pixmap E page))"
    by (simp add: m)
  show ?thesis
    unfolding hd by (auto simp: m gray8_header_def rendered_height_valid [OF assms(4)])
qed

theorem C1_witness:
  "length demo_argv = 3
   \<and> files letter_world (demo_argv ! 1) = Some (DocFile \<lparr>doc_pages = [letter_page]\<rparr>)
   \<and> valid_page letter_page \<and> fopen_errno demo_env (out_name demo_argv) = None
   \<and> (\<forall>s. \<not> png_fault demo_env s)
   \<and> page_bounds letter_page = \<lparr>rx0 = 0, ry0 = 0, rx1 = 612, ry1 = 792\<rparr>
   \<and> fst (main demo_env demo_argv letter_world) = Exit 0
   \<and> file_header (files (snd (main demo_env demo_argv letter_world)) (out_name demo_argv)) =
       Some \<lparr>ihdr_width = 2448, ihdr_height = 3168, ihdr_bit_depth = 8,
             ihdr_color_type = PNG_COLOR_TYPE_GRAY, ihdr_interlace = PNG_INTERLACE_NONE\<rparr>"
proof -
  have d: "doc_pages \<lparr>doc_pages = [letter_page]\<rparr> = [letter_page]" by simp
  have o: "fopen_errno demo_env (out_name demo_argv) = None" by (simp add: demo_env_def)
  have f: "\<forall>s. \<not> png_fault demo_env s" by (simp add: demo_env_def)
  have b: "page_bounds letter_page = \<lparr>rx0 = 0, ry0 = 0, rx1 = 612, ry1 = 792\<rparr>"
    by (simp add: letter_page_def)
  from C1_image_size [OF length_demo_argv doc_letter_world d valid_letter_page o f]
    length_demo_argv doc_letter_world valid_letter_page o f b
  show ?thesis by simp
qed

text \<open>
  C2. The buffer the draw device is created on holds 255 in every one of its stride times
  height bytes, whatever the heap held before; the rendered buffer is that buffer with
  the rasteriser's writes applied; and in the image written from it every byte of every
  scanline is 255 or a value the rasteriser wrote.
\<close>

theorem C2_cleared_before_drawing:
  assumes "length argv = 3" "files W (argv ! 1) = Some (DocFile doc)"
    "doc_pages doc = page # rest" "valid_page page"
    "fopen_errno E (out_name argv) = None" "\<forall>s. \<not> png_fault E s"
  shows "pix_samples (blank_pixmap E page) =
           replicate (nat (pix_stride (blank_pixmap E page) * pix_h (blank_pixmap E page))) 255
       \<and> pix_samples (rendered_pixmap E page) =
           draw (raster E page (fz_concat (fz_scale 4 4) (fz_scale 4 4)) (blank_pixmap E page))
             (pix_samples (blank_pixmap E page))
       \<and> files (snd (main E argv W)) (out_name argv) =
           Some (PngFile (png_image (rendered_pixmap E page)))
       \<and> (\<forall>lvl bs. PngRow lvl bs \<in> set (png_image (rendered_pixmap E page)) \<longrightarrow>
            (\<forall>b \<in> set bs. b = 255 \<or>
               b \<in> snd ` set (raster E page (fz_concat (fz_scale 4 4) (fz_scale 4 4))
                                (blank_pixmap E page))))"
proof (intro conjI allI impI ballI)
  show "pix_samples (blank_pixmap E page) =
      replicate (nat (pix_stride (blank_pixmap E page) * pix_h (blank_pixmap E page))) 255"
    by (rule blank_samples)
  show "pix_samples (rendered_pixmap E page) =
      draw (raster E page (fz_concat (fz_scale 4 4) (fz_scale 4 4)) (blank_pixmap E page))
        (pix_samples (blank_pixmap E page))"
    by (rule rendered_samples)
  have nf: "\<not> png_fails E (nat (pix_h (rendered_pixmap E page)))"
    using assms(6) by (simp add: png_fails_def)
  show "files (snd (main E argv W)) (out_name argv) =
      Some (PngFile (png_image (rendered_pixmap E page)))"
    by (simp add: main_success [OF assms(1-5) nf])
next
  fix lvl bs b
  assume row: "PngRow lvl bs \<in> set (png_image (rendered_pixmap E page))" and b: "b \<in> set bs"
  from png_image_rows [OF row] obtain y where "bs = scanline (rendered_pixmap E page) y"
    by auto
  with b have "b \<in> set (pix_samples (rendered_pixmap E page))"
    using scanline_subset by auto
  then have "b \<in> set (draw (raster E page (fz_concat (fz_scale 4 4) (fz_scale 4 4))
                           (blank_pixmap E page))
        (replicate (nat (pix_stride (blank_pixmap E page) * pix_h (blank_pixmap E page))) 255))"
    using blank_samples [of E page] by (simp add: rendered_samples)
  then show "b = 255 \<or> b \<in> snd ` set (raster E page (fz_concat (fz_scale 4 4) (fz_scale 4 4))
      (blank_pixmap E page))"
    by (rule draw_replicate_set)
qed

theorem C2_witness:
  "length demo_argv = 3
   \<and> files demo_world (demo_argv ! 1) = Some (DocFile \<lparr>doc_pages = [demo_page]\<rparr>)
   \<and> valid_page demo_page \<and> fopen_errno demo_env (out_name demo_argv) = None
   \<and> (\<forall>s. \<not> png_fault demo_env s)
   \<and> pix_samples (blank_pixmap demo_env demo_page) = replicate 8 255
   \<and> files (snd (main demo_env demo_argv demo_world)) (out_name demo_argv) =
       Some (PngFile (png_image (rendered_pixmap demo_env demo_page)))"
proof -
  have d: "doc_pages \<lparr>doc_pages = [demo_page]\<rparr> = demo_page # []" by simp
  have o: "fopen_errno demo_env (out_name demo_argv) = None" by (simp add: demo_env_def)
  have f: "\<forall>s. \<not> png_fault demo_env s" by (simp add: demo_env_def)
  have bb: "page_bbox demo_page = \<lparr>ix0 = 0, iy0 = 0, ix1 = 2, iy1 = 2\<rparr>"
    by (simp add: page_bbox_valid [OF valid_demo_page]) (simp add: demo_page_def)
  have n: "nat (pix_stride (blank_pixmap demo_env demo_page) * pix_h (blank_pixmap demo_env demo_page)) = 8"
    by (simp add: rendered_geometry(4-6) bb)
  from C2_cleared_before_drawing [OF length_demo_argv doc_demo_world d valid_demo_page o f]
    length_demo_argv doc_demo_world valid_demo_page o f
  show ?thesis unfolding n by simp
qed

text \<open>
  C3. The exit status by outcome: 1 when the argument count is not three (program name
  and two arguments), after the line \<^verbatim>\<open>usage: <argv[0]> in.pdf out_prefix\<close> of line 42 has
  been added to standard error and nothing else has changed; and, once the document is
  open and its first page loaded, 2 when the output file cannot be opened (no file is
  touched), 3 when libpng fails while the image is written, 0 when the image file has been
  written.
\<close>

theorem C3_exit_status:
  "(length argv \<noteq> 3 \<longrightarrow>
      main E argv W =
        (Exit 1,
         W\<lparr>stderr := stderr W @
            [''usage: '' @ (case argv of [] \<Rightarrow> ''(null)'' | a # _ \<Rightarrow> a)
               @ '' in.pdf out_prefix'' @ [CHR 0x0A]]\<rparr>))
 \<and> (length argv = 3 \<and> files W (argv ! 1) = Some (DocFile doc) \<and> doc_pages doc = page # rest
      \<longrightarrow>
      (fopen_errno E (out_name argv) \<noteq> None \<longrightarrow>
         fst (main E argv W) = Exit 2 \<and> files (snd (main E argv W)) = files W)
    \<and> (fopen_errno E (out_name argv) = None \<and> valid_page page \<longrightarrow>
         (png_fails E (nat (pix_h (rendered_pixmap E page))) \<longrightarrow>
            fst (main E argv W) = Exit 3)
       \<and> (\<not> png_fails E (nat (pix_h (rendered_pixmap E page))) \<longrightarrow>
            fst (main E argv W) = Exit 0
          \<and> files (snd (main E argv W)) (out_name argv) =
              Some (PngFile (png_image (rendered_pixmap E page))))))"
proof (intro conjI impI)
  assume "length argv \<noteq> 3"
  then show "main E argv W =
        (Exit 1,
         W\<lparr>stderr := stderr W @
            [''usage: '' @ (case argv of [] \<Rightarrow> ''(null)'' | a # _ \<Rightarrow> a)
               @ '' in.pdf out_prefix'' @ [CHR 0x0A]]\<rparr>)"
    by (simp add: main_usage usage_def)
next
  assume run: "length argv = 3 \<and> files W (argv ! 1) = Some (DocFile doc)
      \<and> doc_pages doc = page # rest"
  assume "fopen_errno E (out_name argv) \<noteq> None"
  then obtain msg where msg: "fopen_errno E (out_name argv) = Some msg" by auto
  from run have r: "length argv = 3" "files W (argv ! 1) = Some (DocFile doc)"
    "doc_pages doc = page # rest" by simp_all
  have m: "main E argv W =
      (Exit 2, W\<lparr>clock_reads := clock_reads W + 1, stderr := stderr W @ [''fopen: '' @ msg @ [CHR 0x0A]]\<rparr>)"
    by (rule main_no_open [OF r msg])
  show "fst (main E argv W) = Exit 2" by (simp add: m)
  show "files (snd (main E argv W)) = files W" by (simp add: m)
next
  assume run: "length argv = 3 \<and> files W (argv ! 1) = Some (DocFile doc)
      \<and> doc_pages doc = page # rest"
  assume ok: "fopen_errno E (out_name argv) = None \<and> valid_page page"
  assume "png_fails E (nat (pix_h (rendered_pixmap E page)))"
  moreover from run have r: "length argv = 3" "files W (argv ! 1) = Some (DocFile doc)"
    "doc_pages doc = page # rest" by simp_all
  moreover from ok have "valid_page page" "fopen_errno E (out_name argv) = None" by simp_all
  ultimately show "fst (main E argv W) = Exit 3"
    using main_png_error [OF r] by simp
next
  assume run: "length argv = 3 \<and> files W (argv ! 1) = Some (DocFile doc)
      \<and> doc_pages doc = page # rest"
  assume ok: "fopen_errno E (out_name argv) = None \<and> valid_page page"
  assume nf: "\<not> png_fails E (nat (pix_h (rendered_pixmap E page)))"
  have m: "main E argv W =
     (Exit 0,
      W\<lparr>clock_reads := clock_reads W + 2,
        files := (files W)(out_name argv \<mapsto> PngFile (png_image (rendered_pixmap E page))),
        stdout := stdout W @
          [Yielded (out_name argv) (clock E (clock_reads W)) (clock E (clock_reads W + 1))]\<rparr>)"
  proof -
    from run have r: "length argv = 3" "files W (argv ! 1) = Some (DocFile doc)"
      "doc_pages doc = page # rest" by simp_all
    from ok have k: "valid_page page" "fopen_errno E (out_name argv) = None" by simp_all
    show ?thesis by (rule main_success [OF r k nf])
  qed
  show "fst (main E argv W) = Exit 0" by (simp add: m)
  show "files (snd (main E argv W)) (out_name argv) =
      Some (PngFile (png_image (rendered_pixmap E page)))" by (simp add: m)
qed

theorem C3_witness:
  "length [''prog'', ''in.pdf''] \<noteq> 3
   \<and> main demo_env [''prog'', ''in.pdf''] demo_world =
       (Exit 1,
        demo_world\<lparr>stderr := stderr demo_world @
          [''usage: prog in.pdf out_prefix'' @ [CHR 0x0A]]\<rparr>)
   \<and> length demo_argv = 3
   \<and> files demo_world (demo_argv ! 1) = Some (DocFile \<lparr>doc_pages = [demo_page]\<rparr>)
   \<and> valid_page demo_page
   \<and> fopen_errno readonly_env (out_name demo_argv) \<noteq> None
   \<and> fst (main readonly_env demo_argv demo_world) = Exit 2
   \<and> fopen_errno faulty_env (out_name demo_argv) = None
   \<and> png_fails faulty_env (nat (pix_h (rendered_pixmap faulty_env demo_page)))
   \<and> fst (main faulty_env demo_argv demo_world) = Exit 3
   \<and> fopen_errno demo_env (out_name demo_argv) = None
   \<and> \<not> png_fails demo_env (nat (pix_h (rendered_pixmap demo_env demo_page)))
   \<and> fst (main demo_env demo_argv demo_world) = Exit 0"
proof -
  have a: "length [''prog'', ''in.pdf''] \<noteq> 3" by simp
  have o: "fopen_errno readonly_env (out_name demo_argv) \<noteq> None"
    "fopen_errno faulty_env (out_name demo_argv) = None"
    "fopen_errno demo_env (out_name demo_argv) = None"
    by (simp_all add: readonly_env_def faulty_env_def demo_env_def)
  have f: "png_fails faulty_env (nat (pix_h (rendered_pixmap faulty_env demo_page)))"
    "\<not> png_fails demo_env (nat (pix_h (rendered_pixmap demo_env demo_page)))"
    by (simp_all add: png_fails_def faulty_env_def demo_env_def)
  have d: "doc_pages \<lparr>doc_pages = [demo_page]\<rparr> = demo_page # []" by simp
  note t = C3_exit_status [where doc = "\<lparr>doc_pages = [demo_page]\<rparr>" and page = demo_page
      and rest = "[]" and W = demo_world]
  from t [where argv = "[''prog'', ''in.pdf'']" and E = demo_env]
    t [where argv = demo_argv and E = readonly_env]
    t [where argv = demo_argv and E = faulty_env]
    t [where argv = demo_argv and E = demo_env]
    a o f d length_demo_argv doc_demo_world valid_demo_page
  show ?thesis by simp
qed

text \<open>
  C4. For a pixel buffer of height \<open>h\<close> and stride \<open>s\<close>, the encoder's row table holds
  the offsets \<open>0, s, 2s, ...\<close>, one for each row, and the file it writes carries exactly
  \<open>h\<close> scanlines between header and trailer: row 0 first, row \<open>h - 1\<close> last, each
  once, the scanline of row \<open>y\<close> being the bytes of the buffer at offset \<open>y * s\<close>.
\<close>

theorem C4_scanlines_in_row_order:
  assumes "pixmap_ok pix" "fopen_errno E fname = None" "\<not> png_fails E (nat (pix_h pix))"
  shows "fill_rows pix 0 (replicate (nat (pix_h pix)) None) =
           map (\<lambda>y. Some (y * nat (pix_stride pix))) [0..<nat (pix_h pix)]
       \<and> files (snd (write_png_fast E pix fname W)) fname =
           Some (PngFile (PngHeader (gray8_header pix)
             # map (\<lambda>y. PngRow 1 (take (nat (pix_w pix))
                                  (drop (y * nat (pix_stride pix)) (pix_samples pix))))
                 [0..<nat (pix_h pix)]
             @ [PngEnd]))"
  using rows_table [OF assms(1)] write_png_fast_ok [OF assms(2) assms(1) assms(3), of W]
  by (simp add: png_image_def scanline_def)

theorem C4_witness:
  "pixmap_ok demo_pix \<and> fopen_errno demo_env ''o.png'' = None
   \<and> \<not> png_fails demo_env (nat (pix_h demo_pix))
   \<and> fill_rows demo_pix 0 (replicate (nat (pix_h demo_pix)) None) = [Some 0, Some 3]
   \<and> files (snd (write_png_fast demo_env demo_pix ''o.png'' demo_world)) ''o.png'' =
       Some (PngFile [PngHeader (gray8_header demo_pix), PngRow 1 [1, 2], PngRow 1 [3, 4],
                      PngEnd])"
proof -
  have a: "pixmap_ok demo_pix" by (simp add: pixmap_ok_def demo_pix_def)
  have b: "fopen_errno demo_env ''o.png'' = None" by (simp add: demo_env_def)
  have c: "\<not> png_fails demo_env (nat (pix_h demo_pix))"
    by (simp add: png_fails_def demo_env_def)
  have h: "nat (pix_h demo_pix) = 2" "nat (pix_w demo_pix) = 2" "nat (pix_stride demo_pix) = 3"
    "pix_samples demo_pix = [1, 2, 0, 3, 4, 0]"
    by (simp_all add: demo_pix_def)
  have u: "[0..<2] = [0, Suc 0]" by (simp add: upt_rec)
  from C4_scanlines_in_row_order [OF a b c, of demo_world] a b c
  show ?thesis
    unfolding h u by simp
qed

text \<open>
  C5. The claim has the encoder set the lowest level the compression library offers.
  On a two-row buffer both scanlines are written at level 1, and level 0, which stores
  without compressing, is available and lower.
\<close>

theorem C5_counterexample:
  "file_row_levels (files (snd (write_png_fast demo_env demo_pix ''o.png'' demo_world)) ''o.png'')
     = [1, 1]
   \<and> zlib_level_available Z_NO_COMPRESSION \<and> Z_NO_COMPRESSION < 1"
proof -
  have a: "pixmap_ok demo_pix" by (simp add: pixmap_ok_def demo_pix_def)
  have b: "fopen_errno demo_env ''o.png'' = None" by (simp add: demo_env_def)
  have c: "\<not> png_fails demo_env (nat (pix_h demo_pix))"
    by (simp add: png_fails_def demo_env_def)
  have h: "replicate (nat (pix_h demo_pix)) (1::int) = [1, 1]"
    by (simp add: demo_pix_def numeral_2_eq_2)
  show ?thesis
    using h by (simp add: write_png_fast_ok [OF b a c] file_row_levels_def row_levels_png_image
          zlib_level_available_def Z_NO_COMPRESSION_def Z_BEST_COMPRESSION_def)
qed

text \<open>
  C5, as the code has it. Whenever the output file can be opened, every scanline in it,
  also in a file that libpng gave up on, was written at level 1, \<open>Z_BEST_SPEED\<close>: the
  level is set before the first scanline and stays. For a well-formed buffer and a
  libpng that does not fail these are all \<open>h\<close> scanlines. Level 1 is the lowest level
  that compresses: the only available level below it is 0, no compression.
\<close>

theorem C5_level_best_speed:
  assumes "fopen_errno E fname = None"
  shows "set (file_row_levels (files (snd (write_png_fast E pix fname W)) fname))
           \<subseteq> {Z_BEST_SPEED}
       \<and> (pixmap_ok pix \<and> \<not> png_fails E (nat (pix_h pix)) \<longrightarrow>
            file_row_levels (files (snd (write_png_fast E pix fname W)) fname)
              = replicate (nat (pix_h pix)) Z_BEST_SPEED)
       \<and> (\<forall>l. zlib_level_available l \<and> l \<noteq> Z_NO_COMPRESSION \<longrightarrow> Z_BEST_SPEED \<le> l)"
proof (intro conjI impI allI)
  show "set (file_row_levels (files (snd (write_png_fast E pix fname W)) fname))
           \<subseteq> {Z_BEST_SPEED}"
    using write_png_fast_levels [OF assms] by (simp add: Z_BEST_SPEED_def)
next
  assume "pixmap_ok pix \<and> \<not> png_fails E (nat (pix_h pix))"
  then show "file_row_levels (files (snd (write_png_fast E pix fname W)) fname)
              = replicate (nat (pix_h pix)) Z_BEST_SPEED"
    by (simp add: write_png_fast_ok [OF assms] file_row_levels_def row_levels_png_image
          Z_BEST_SPEED_def)
next
  fix l assume "zlib_level_available l \<and> l \<noteq> Z_NO_COMPRESSION"
  then show "Z_BEST_SPEED \<le> l"
    by (simp add: zlib_level_available_def Z_NO_COMPRESSION_def Z_BEST_SPEED_def)
qed

theorem C5_witness:
  "fopen_errno demo_env ''o.png'' = None \<and> pixmap_ok demo_pix
   \<and> \<not> png_fails demo_env (nat (pix_h demo_pix))
   \<and> zlib_level_available 9 \<and> (9::int) \<noteq> Z_NO_COMPRESSION
   \<and> file_row_levels (files (snd (write_png_fast demo_env demo_pix ''o.png'' demo_world)) ''o.png'')
       = [Z_BEST_SPEED, Z_BEST_SPEED]
   \<and> Z_BEST_SPEED \<le> 9"
proof -
  have a: "pixmap_ok demo_pix" by (simp add: pixmap_ok_def demo_pix_def)
  have b: "fopen_errno demo_env ''o.png'' = None" by (simp add: demo_env_def)
  have c: "\<not> png_fails demo_env (nat (pix_h demo_pix))"
    by (simp add: png_fails_def demo_env_def)
  have d: "zlib_level_available 9 \<and> (9::int) \<noteq> Z_NO_COMPRESSION"
    by (simp add: zlib_level_available_def Z_NO_COMPRESSION_def Z_BEST_COMPRESSION_def)
  have h: "replicate (nat (pix_h demo_pix)) Z_BEST_SPEED = [Z_BEST_SPEED, Z_BEST_SPEED]"
    by (simp add: demo_pix_def numeral_2_eq_2)
  from C5_level_best_speed [OF b, of demo_pix demo_world] a b c d h
  show ?thesis by auto
qed

text \<open>
  C6. The claim has the output named \<open><prefix>.png\<close> for every prefix. With a prefix
  of 252 bytes the run succeeds, but no file of that name exists afterwards: the name was
  cut to 255 bytes and ends in \<open>.pn\<close>.
\<close>

theorem C6_counterexample:
  "fst (main demo_env [''prog'', ''in.pdf'', long_prefix] demo_world) = Exit 0
   \<and> files (snd (main demo_env [''prog'', ''in.pdf'', long_prefix] demo_world))
       (long_prefix @ ''.png'') = None
   \<and> files (snd (main demo_env [''prog'', ''in.pdf'', long_prefix] demo_world))
       (long_prefix @ ''.pn'') \<noteq> None"
proof -
  let ?argv = "[''prog'', ''in.pdf'', long_prefix]"
  have l: "length ?argv = 3" by simp
  have i: "files demo_world (?argv ! 1) = Some (DocFile \<lparr>doc_pages = [demo_page]\<rparr>)"
    by (simp add: demo_world_def)
  have d: "doc_pages \<lparr>doc_pages = [demo_page]\<rparr> = demo_page # []" by simp
  have o: "fopen_errno demo_env (out_name ?argv) = None" by (simp add: demo_env_def)
  have f: "\<not> png_fails demo_env (nat (pix_h (rendered_pixmap demo_env demo_page)))"
    by (simp add: png_fails_def demo_env_def)
  note m = main_success [OF l i d valid_demo_page o f]
  show ?thesis
    unfolding m by (simp add: out_name_long long_name_fresh)
qed

text \<open>
  C6, as the code has it. For a prefix of at most 251 bytes the name is \<open><prefix>.png\<close>,
  and a successful run changes the files at that path only: whatever was there is replaced
  by the image.
\<close>

theorem C6_output_name:
  assumes "length argv = 3" "files W (argv ! 1) = Some (DocFile doc)"
    "doc_pages doc = page # rest" "valid_page page"
    "fopen_errno E (out_name argv) = None" "\<forall>s. \<not> png_fault E s"
    "length (argv ! 2) \<le> 251"
  shows "out_name argv = argv ! 2 @ ''.png''
       \<and> fst (main E argv W) = Exit 0
       \<and> files (snd (main E argv W)) =
           (files W)(argv ! 2 @ ''.png'' \<mapsto> PngFile (png_image (rendered_pixmap E page)))"
proof -
  have nf: "\<not> png_fails E (nat (pix_h (rendered_pixmap E page)))"
    using assms(6) by (simp add: png_fails_def)
  show ?thesis
    unfolding main_success [OF assms(1-5) nf]
    by (simp add: out_name_short [OF assms(7)])
qed

theorem C6_witness:
  "length demo_argv = 3
   \<and> files later_world (demo_argv ! 1) = Some (DocFile \<lparr>doc_pages = [demo_page]\<rparr>)
   \<and> valid_page demo_page \<and> fopen_errno demo_env (out_name demo_argv) = None
   \<and> (\<forall>s. \<not> png_fault demo_env s) \<and> length (demo_argv ! 2) \<le> 251
   \<and> files later_world ''out.png'' = Some (OtherFile [1, 2, 3])
   \<and> fst (main demo_env demo_argv later_world) = Exit 0
   \<and> files (snd (main demo_env demo_argv later_world)) =
       (files later_world)(''out.png'' \<mapsto> PngFile (png_image (rendered_pixmap demo_env demo_page)))"
proof -
  have i: "files later_world (demo_argv ! 1) = Some (DocFile \<lparr>doc_pages = [demo_page]\<rparr>)"
    by (simp add: later_world_def demo_world_def demo_argv_def)
  have d: "doc_pages \<lparr>doc_pages = [demo_page]\<rparr> = demo_page # []" by simp
  have o: "fopen_errno demo_env (out_name demo_argv) = None" by (simp add: demo_env_def)
  have f: "\<forall>s. \<not> png_fault demo_env s" by (simp add: demo_env_def)
  have s: "length (demo_argv ! 2) \<le> 251" "demo_argv ! 2 @ ''.png'' = ''out.png''"
    by (simp_all add: demo_argv_def)
  have e: "files later_world ''out.png'' = Some (OtherFile [1, 2, 3])"
    by (simp add: later_world_def)
  from C6_output_name [OF length_demo_argv i d valid_demo_page o f s(1)]
    length_demo_argv i valid_demo_page o f s e
  show ?thesis by simp
qed

text \<open>
  C7. When the engine cannot open the document at the input path (no such file, or a
  file that is not a document), the process ends with the engine's document-open error,
  and it ends before the output is opened: the files are what they were, nothing is
  printed.
\<close>

theorem C7_no_document_no_output:
  assumes "length argv = 3" "\<not> openable W (argv ! 1)"
  shows "fst (main E argv W) = Abort DocumentOpenError
       \<and> files (snd (main E argv W)) = files W
       \<and> stdout (snd (main E argv W)) = stdout W"
  by (simp add: main_no_document' [OF assms])

theorem C7_witness:
  "length [''prog'', ''nope.pdf'', ''out''] = 3
   \<and> \<not> openable demo_world ([''prog'', ''nope.pdf'', ''out''] ! 1)
   \<and> fst (main demo_env [''prog'', ''nope.pdf'', ''out''] demo_world) = Abort DocumentOpenError
   \<and> files (snd (main demo_env [''prog'', ''nope.pdf'', ''out''] demo_world)) ''out.png'' = None"
proof -
  have a: "length [''prog'', ''nope.pdf'', ''out''] = 3" by simp
  have b: "\<not> openable demo_world ([''prog'', ''nope.pdf'', ''out''] ! 1)"
    by (simp add: openable_def demo_world_def)
  have c: "files demo_world ''out.png'' = None" by (simp add: demo_world_def)
  from C7_no_document_no_output [OF a b, of demo_env] a b c
  show ?thesis by simp
qed

text \<open>
  C8. The matrix of line 51 sizes the buffer, and the same matrix is given both to the
  draw device (line 58) and to the page run (line 59). The draw device concatenates the
  two, so the page is rasterised under a scale of 16 into a buffer sized for a scale of
  4. On the Letter page with a black mark at its centre the run succeeds and writes the
  image of the blank buffer: the mark went to pixel (4896, 6336), outside the 2448 by
  3168 buffer, while under the matrix that sized the buffer it is the sample at offset
  7757712, pixel (1224, 1584).
\<close>

theorem C8_rasterised_at_scale_16:
  "pix_samples (rendered_pixmap E page) =
     draw (raster E page (fz_scale 16 16) (blank_pixmap E page))
       (pix_samples (blank_pixmap E page))
   \<and> page_bbox page = fz_round_rect (fz_transform_rect (fz_bound_page page) (fz_scale 4 4))
   \<and> fst (main demo_env demo_argv letter_world) = Exit 0
   \<and> files (snd (main demo_env demo_argv letter_world)) ''out.png'' =
       Some (PngFile (png_image (blank_pixmap demo_env letter_page)))
   \<and> plot_marks letter_page (fz_scale 16 16) (blank_pixmap demo_env letter_page) = []
   \<and> plot_marks letter_page (fz_scale 4 4) (blank_pixmap demo_env letter_page) =
       [(7757712, 0)]"
proof -
  have d: "doc_pages \<lparr>doc_pages = [letter_page]\<rparr> = letter_page # []" by simp
  have o: "fopen_errno demo_env (out_name demo_argv) = None" by (simp add: demo_env_def)
  have f: "\<not> png_fails demo_env (nat (pix_h (rendered_pixmap demo_env letter_page)))"
    by (simp add: png_fails_def demo_env_def)
  note m = main_success [OF length_demo_argv doc_letter_world d valid_letter_page o f]
  have "pix_samples (rendered_pixmap E page) =
     draw (raster E page (fz_scale 16 16) (blank_pixmap E page))
       (pix_samples (blank_pixmap E page))"
    by (simp add: rendered_samples render_ctm)
  moreover have "page_bbox page =
      fz_round_rect (fz_transform_rect (fz_bound_page page) (fz_scale 4 4))"
    by (rule page_bbox_def)
  moreover have "fst (main demo_env demo_argv letter_world) = Exit 0"
    by (simp add: m)
  moreover have "files (snd (main demo_env demo_argv letter_world)) ''out.png'' =
       Some (PngFile (png_image (blank_pixmap demo_env letter_page)))"
    by (simp add: m out_name_demo rendered_letter)
  ultimately show ?thesis
    using plot_letter_16 plot_letter_4 by simp
qed

text \<open>
  C9. Two successful runs on the same document, with the same engine, write the same
  image, whatever else differs between them: the clock, the bytes the heap held, what was
  in the file system, the other arguments.
\<close>

theorem C9_same_document_same_image:
  assumes "length argv1 = 3" "length argv2 = 3"
    "files W1 (argv1 ! 1) = Some (DocFile doc)" "files W2 (argv2 ! 1) = Some (DocFile doc)"
    "doc_pages doc = page # rest" "valid_page page" "raster E1 = raster E2"
    "fst (main E1 argv1 W1) = Exit 0" "fst (main E2 argv2 W2) = Exit 0"
  shows "files (snd (main E1 argv1 W1)) (out_name argv1) =
           files (snd (main E2 argv2 W2)) (out_name argv2)
       \<and> files (snd (main E1 argv1 W1)) (out_name argv1) =
           Some (PngFile (png_image (rendered_pixmap E1 page)))"
  using main_exit0_file [OF assms(1,3,5,6,8)] main_exit0_file [OF assms(2,4,5,6,9)]
    rendered_pixmap_env [OF assms(7), of page]
  by simp

theorem C9_witness:
  "length demo_argv = 3
   \<and> files demo_world (demo_argv ! 1) = Some (DocFile \<lparr>doc_pages = [demo_page]\<rparr>)
   \<and> files later_world (demo_argv ! 1) = Some (DocFile \<lparr>doc_pages = [demo_page]\<rparr>)
   \<and> valid_page demo_page \<and> raster demo_env = raster later_env
   \<and> heap_junk demo_env 0 \<noteq> heap_junk later_env 0
   \<and> clock demo_env 0 \<noteq> clock later_env 0
   \<and> files demo_world ''out.png'' \<noteq> files later_world ''out.png''
   \<and> fst (main demo_env demo_argv demo_world) = Exit 0
   \<and> fst (main later_env demo_argv later_world) = Exit 0
   \<and> files (snd (main demo_env demo_argv demo_world)) (out_name demo_argv) =
       files (snd (main later_env demo_argv later_world)) (out_name demo_argv)"
proof -
  have i: "files later_world (demo_argv ! 1) = Some (DocFile \<lparr>doc_pages = [demo_page]\<rparr>)"
    by (simp add: later_world_def demo_world_def demo_argv_def)
  have d: "doc_pages \<lparr>doc_pages = [demo_page]\<rparr> = demo_page # []" by simp
  have o: "fopen_errno demo_env (out_name demo_argv) = None"
    "fopen_errno later_env (out_name demo_argv) = None"
    by (simp_all add: demo_env_def later_env_def)
  have f: "\<not> png_fails demo_env (nat (pix_h (rendered_pixmap demo_env demo_page)))"
    "\<not> png_fails later_env (nat (pix_h (rendered_pixmap later_env demo_page)))"
    by (simp_all add: png_fails_def demo_env_def later_env_def)
  have r: "raster demo_env = raster later_env" by (simp add: later_env_def)
  have x: "heap_junk demo_env 0 \<noteq> heap_junk later_env 0" "clock demo_env 0 \<noteq> clock later_env 0"
    "files demo_world ''out.png'' \<noteq> files later_world ''out.png''"
    by (simp_all add: demo_env_def later_env_def later_world_def demo_world_def)
  have e1: "fst (main demo_env demo_argv demo_world) = Exit 0"
    by (simp add: main_success [OF length_demo_argv doc_demo_world d valid_demo_page o(1) f(1)])
  have e2: "fst (main later_env demo_argv later_world) = Exit 0"
    by (simp add: main_success [OF length_demo_argv i d valid_demo_page o(2) f(2)])
  from C9_same_document_same_image [OF length_demo_argv length_demo_argv doc_demo_world i d
      valid_demo_page r e1 e2]
    length_demo_argv doc_demo_world i valid_demo_page r x e1 e2
  show ?thesis by simp
qed

text \<open>
  C10. For a pixel buffer of height \<open>h\<close> and stride \<open>s\<close>, the row table the encoder
  builds has \<open>h\<close> entries, entry \<open>y\<close> is the offset \<open>y * s\<close>, the \<open>w\<close> bytes read
  there end inside the \<open>s * h\<close> bytes of the buffer, and the encoder never reads
  outside it, whatever else happens. The buffer \<^verbatim>\<open>main\<close> hands over for a valid page is
  such a buffer, of the size that was cleared.
\<close>

theorem C10_reads_inside_buffer:
  "(pixmap_ok pix \<longrightarrow>
      length (fill_rows pix 0 (replicate (nat (pix_h pix)) None)) = nat (pix_h pix)
    \<and> (\<forall>y < nat (pix_h pix).
          fill_rows pix 0 (replicate (nat (pix_h pix)) None) ! y
            = Some (y * nat (pix_stride pix))
        \<and> y * nat (pix_stride pix) + nat (pix_w pix) \<le> length (pix_samples pix))
    \<and> length (pix_samples pix) = nat (pix_stride pix * pix_h pix)
    \<and> fst (write_png_fast E pix fname W) \<noteq> Inl Undefined)
 \<and> (valid_page page \<longrightarrow>
      pixmap_ok (rendered_pixmap E page)
    \<and> length (pix_samples (rendered_pixmap E page)) = length (pix_samples (blank_pixmap E page)))"
proof (intro conjI impI)
  assume ok: "pixmap_ok pix"
  show "length (fill_rows pix 0 (replicate (nat (pix_h pix)) None)) = nat (pix_h pix)"
    by (simp add: rows_table [OF ok])
  show "\<forall>y < nat (pix_h pix).
          fill_rows pix 0 (replicate (nat (pix_h pix)) None) ! y
            = Some (y * nat (pix_stride pix))
        \<and> y * nat (pix_stride pix) + nat (pix_w pix) \<le> length (pix_samples pix)"
    using row_in_buffer [OF ok] by (simp add: rows_table [OF ok])
  show "length (pix_samples pix) = nat (pix_stride pix * pix_h pix)"
    using ok by (simp add: pixmap_ok_def)
  show "fst (write_png_fast E pix fname W) \<noteq> Inl Undefined"
    using ok by (rule write_png_fast_defined)
next
  assume v: "valid_page page"
  show "pixmap_ok (rendered_pixmap E page)"
    using v by (rule rendered_ok)
  show "length (pix_samples (rendered_pixmap E page)) = length (pix_samples (blank_pixmap E page))"
    by (simp add: rendered_samples)
qed

theorem C10_witness:
  "pixmap_ok demo_pix \<and> valid_page demo_page
   \<and> length (fill_rows demo_pix 0 (replicate (nat (pix_h demo_pix)) None)) = 2
   \<and> fst (write_png_fast demo_env demo_pix ''o.png'' demo_world) \<noteq> Inl Undefined
   \<and> pixmap_ok (rendered_pixmap demo_env demo_page)"
proof -
  have a: "pixmap_ok demo_pix" by (simp add: pixmap_ok_def demo_pix_def)
  have b: "valid_page demo_page" by (simp add: valid_page_def demo_page_def)
  have h: "nat (pix_h demo_pix) = 2" by (simp add: demo_pix_def)
  from C10_reads_inside_buffer [where pix = demo_pix and E = demo_env and fname = "''o.png''"
      and W = demo_world and page = demo_page]
    a b h
  show ?thesis by simp
qed

end
